theory Spec2Isabelle
  imports Complex_Main "HOL-Library.Log_Nat" "HOL-Library.Char_ord" "HOL-Library.List_Lexorder"
begin

section \<open>Python values\<close>

text \<open>
  The exceptions that the modelled code can raise: true division by zero, a quotient or a
  bound integer that does not fit the target number format, with its message, and a
  missing dictionary key, with the key.
\<close>

datatype py_error = ZeroDivisionError | OverflowError string | KeyError string

definition bindE :: "py_error + 'a \<Rightarrow> ('a \<Rightarrow> py_error + 'b) \<Rightarrow> py_error + 'b" where
  "bindE r f = (case r of Inl e \<Rightarrow> Inl e | Inr v \<Rightarrow> f v)"

subsection \<open>Floats: IEEE 754 binary64, round to nearest, ties to even\<close>

text \<open>
  A finite Python float is the rational number it denotes (the two zeros are identified:
  no operation of the program tells them apart). \<open>d64\<close> rounds a rational to the nearest
  value with a 53-bit significand, ties to the even significand, with the exponent
  clamped below at \<open>-1022\<close> so that the subnormal range has its fixed spacing
  \<open>2 powi (-1074)\<close>. \<open>fl\<close> adds the overflow to an infinity.
\<close>

definition round_half_even :: "rat \<Rightarrow> int" where
  "round_half_even q =
     (let f = \<lfloor>q\<rfloor>; r = q - of_int f
      in if r < 1 / 2 then f else if 1 / 2 < r then f + 1 else if even f then f else f + 1)"

definition ilog2 :: "rat \<Rightarrow> int" where
  "ilog2 x = (if 1 \<le> x then bitlen \<lfloor>x\<rfloor> - 1 else - bitlen (\<lceil>1 / x\<rceil> - 1))"

definition d64 :: "rat \<Rightarrow> rat" where
  "d64 x =
     (if x = 0 then 0
      else let a = \<bar>x\<bar>; e = max (ilog2 a) (- 1022);
               m = round_half_even (a * 2 powi (52 - e))
           in sgn x * of_int m * 2 powi (e - 52))"

datatype pyfloat = Fin rat | PInf | NInf | NaN

definition fl :: "rat \<Rightarrow> pyfloat" where
  "fl x = (let r = d64 x
           in if 2 ^ 1024 \<le> r then PInf else if r \<le> - (2 ^ 1024) then NInf else Fin r)"

text \<open>A decimal literal of the source denotes the double nearest to it.\<close>

definition float_lit :: "rat \<Rightarrow> pyfloat" where
  "float_lit q = fl q"

fun fsgn :: "pyfloat \<Rightarrow> int" where
  "fsgn (Fin x) = (if x < 0 then - 1 else if x = 0 then 0 else 1)"
| "fsgn PInf = 1"
| "fsgn NInf = - 1"
| "fsgn NaN = 0"

definition inf_of_sign :: "int \<Rightarrow> pyfloat" where
  "inf_of_sign s = (if s = 0 then NaN else if 0 < s then PInf else NInf)"

fun fadd :: "pyfloat \<Rightarrow> pyfloat \<Rightarrow> pyfloat" where
  "fadd (Fin x) (Fin y) = fl (x + y)"
| "fadd NaN b = NaN"
| "fadd a NaN = NaN"
| "fadd PInf NInf = NaN"
| "fadd NInf PInf = NaN"
| "fadd PInf b = PInf"
| "fadd a PInf = PInf"
| "fadd NInf b = NInf"
| "fadd a NInf = NInf"

fun fmul :: "pyfloat \<Rightarrow> pyfloat \<Rightarrow> pyfloat" where
  "fmul (Fin x) (Fin y) = fl (x * y)"
| "fmul NaN b = NaN"
| "fmul a NaN = NaN"
| "fmul PInf b = inf_of_sign (fsgn b)"
| "fmul NInf b = inf_of_sign (- fsgn b)"
| "fmul a PInf = inf_of_sign (fsgn a)"
| "fmul a NInf = inf_of_sign (- fsgn a)"

text \<open>The comparison \<open>a <= b\<close> of two floats; every comparison with a NaN is false.\<close>

fun fle :: "pyfloat \<Rightarrow> pyfloat \<Rightarrow> bool" where
  "fle (Fin x) (Fin y) = (x \<le> y)"
| "fle NaN b = False"
| "fle a NaN = False"
| "fle NInf b = True"
| "fle a PInf = True"
| "fle PInf b = False"
| "fle a NInf = False"

text \<open>
  \<open>a / b\<close> on two Python ints: the correctly rounded quotient, \<open>ZeroDivisionError\<close> for a
  zero divisor and \<open>OverflowError\<close> when the quotient is too large for a float.
\<close>

definition int_truediv :: "int \<Rightarrow> int \<Rightarrow> py_error + pyfloat" where
  "int_truediv a b =
     (if b = 0 then Inl ZeroDivisionError
      else case fl (of_int a / of_int b) of
             Fin q \<Rightarrow> Inr (Fin q)
           | _ \<Rightarrow> Inl (OverflowError ''integer division result too large for a float''))"

text \<open>Negation, subtraction and absolute value; \<open>a - b\<close> is \<open>a + (-b)\<close>, rounded once.\<close>

fun fneg :: "pyfloat \<Rightarrow> pyfloat" where
  "fneg (Fin x) = Fin (- x)"
| "fneg PInf = NInf"
| "fneg NInf = PInf"
| "fneg NaN = NaN"

definition fsub :: "pyfloat \<Rightarrow> pyfloat \<Rightarrow> pyfloat" where
  "fsub a b = fadd a (fneg b)"

fun fabs :: "pyfloat \<Rightarrow> pyfloat" where
  "fabs (Fin x) = Fin \<bar>x\<bar>"
| "fabs PInf = PInf"
| "fabs NInf = PInf"
| "fabs NaN = NaN"

text \<open>The test \<open>c && Py_IS_FINITE(c)\<close> of the interpreter: \<open>c\<close> is finite and not zero.\<close>

fun finite_nonzero :: "pyfloat \<Rightarrow> bool" where
  "finite_nonzero (Fin x) = (x \<noteq> 0)"
| "finite_nonzero PInf = False"
| "finite_nonzero NInf = False"
| "finite_nonzero NaN = False"

text \<open>
  The builtin \<open>sum\<close> on a list of floats depends on the interpreter. Both start from the
  integer \<open>0\<close>, to which the first element is added. CPython up to 3.11 then adds each
  further element to the running double in list order. CPython from 3.12 on runs Neumaier's
  compensated summation: beside the running double \<open>f_result\<close> it keeps a compensation
  \<open>c\<close>, to which every step adds the rounding error of its addition, computed as
  \<open>(f_result - t) + x\<close> or \<open>(x - t) + f_result\<close> with the larger operand first, and it adds
  \<open>c\<close> to the result at the end if \<open>c\<close> is finite and not zero. The repository does not
  fix the interpreter, so the functions that call \<open>sum\<close> on floats take it as a parameter.
\<close>

datatype cpython = Until_3_11 | From_3_12

definition neumaier_step :: "pyfloat \<times> pyfloat \<Rightarrow> pyfloat \<Rightarrow> pyfloat \<times> pyfloat" where
  "neumaier_step s x =
     (let f_result = fst s; c = snd s; t = fadd f_result x
      in (t, fadd c (if fle (fabs x) (fabs f_result) then fadd (fsub f_result t) x
                     else fadd (fsub x t) f_result)))"

definition py_sum :: "cpython \<Rightarrow> pyfloat list \<Rightarrow> pyfloat" where
  "py_sum v xs =
     (case xs of
        [] \<Rightarrow> Fin 0
      | x # ys \<Rightarrow>
          (case v of
             Until_3_11 \<Rightarrow> foldl fadd (fadd (Fin 0) x) ys
           | From_3_12 \<Rightarrow>
               let s = foldl neumaier_step (fadd (Fin 0) x, Fin 0) ys
               in if finite_nonzero (snd s) then fadd (fst s) (snd s) else fst s))"

subsection \<open>Strings\<close>






section \<open>Data models\<close>

record PoliticalStabilityMetrics =
  government_legitimacy :: int
  political_violence :: int
  institutional_strength :: int
  leadership_stability :: int

record SecurityEnvironmentMetrics =
  internal_conflict :: int
  regional_security :: int
  law_enforcement :: int
  military_factors :: int

record EconomicStabilityMetrics =
  economic_performance :: int
  fiscal_health :: int
  trade_dependencies :: int
  infrastructure_resilience :: int

record SocialIndicatorsMetrics =
  social_cohesion :: int
  human_development :: int
  demographic_pressures :: int
  information_environment :: int

record IllicitMarketsMetrics =
  drug_trade :: int
  human_trafficking :: int
  arms_trafficking :: int
  financial_crimes :: int
  cybercrime_operations :: int
  state_response_capacity :: int

record CountryData =
  name :: string
  political_stability :: PoliticalStabilityMetrics
  security_environment :: SecurityEnvironmentMetrics
  economic_stability :: EconomicStabilityMetrics
  social_indicators :: SocialIndicatorsMetrics
  illicit_markets :: IllicitMarketsMetrics
  key_risk_factors :: string
  trend_analysis :: string
  recommendations :: string

text \<open>
  \<open>calculate_category_score\<close> accepts any of the five metric objects; \<open>None\<close> is the
  falsy argument of its guard (a dataclass instance is always truthy).
\<close>

datatype category_metrics =
    Political PoliticalStabilityMetrics
  | Security SecurityEnvironmentMetrics
  | Economic EconomicStabilityMetrics
  | Social SocialIndicatorsMetrics
  | Illicit IllicitMarketsMetrics

text \<open>The values of \<open>__dataclass_fields__\<close>, in declaration order.\<close>

fun dataclass_fields :: "category_metrics \<Rightarrow> int list" where
  "dataclass_fields (Political m) =
     [government_legitimacy m, political_violence m, institutional_strength m,
      leadership_stability m]"
| "dataclass_fields (Security m) =
     [internal_conflict m, regional_security m, law_enforcement m, military_factors m]"
| "dataclass_fields (Economic m) =
     [economic_performance m, fiscal_health m, trade_dependencies m,
      infrastructure_resilience m]"
| "dataclass_fields (Social m) =
     [social_cohesion m, human_development m, demographic_pressures m,
      information_environment m]"
| "dataclass_fields (Illicit m) =
     [drug_trade m, human_trafficking m, arms_trafficking m, financial_crimes m,
      cybercrime_operations m, state_response_capacity m]"

definition WEIGHTS :: "(string \<times> pyfloat) list" where
  "WEIGHTS =
     [(''political_stability'', float_lit (25 / 100)),
      (''security_environment'', float_lit (20 / 100)),
      (''economic_stability'', float_lit (20 / 100)),
      (''social_indicators'', float_lit (15 / 100)),
      (''illicit_markets'', float_lit (20 / 100))]"

definition weight :: "string \<Rightarrow> py_error + pyfloat" where
  "weight k = (case map_of WEIGHTS k of None \<Rightarrow> Inl (KeyError k) | Some w \<Rightarrow> Inr w)"

section \<open>Scoring\<close>

definition calculate_category_score :: "category_metrics option \<Rightarrow> py_error + pyfloat" where
  "calculate_category_score category_metrics =
     (case category_metrics of
        None \<Rightarrow> Inr (float_lit 0)
      | Some m \<Rightarrow>
          let scores = dataclass_fields m
          in int_truediv (sum_list scores) (int (length scores)))"

definition calculate_threat_score :: "cpython \<Rightarrow> CountryData \<Rightarrow> py_error + pyfloat" where
  "calculate_threat_score v c =
     bindE (calculate_category_score (Some (Political (political_stability c)))) (\<lambda>pol_stab_score.
     bindE (weight ''political_stability'') (\<lambda>w1.
     bindE (calculate_category_score (Some (Security (security_environment c)))) (\<lambda>sec_env_score.
     bindE (weight ''security_environment'') (\<lambda>w2.
     bindE (calculate_category_score (Some (Economic (economic_stability c)))) (\<lambda>econ_stab_score.
     bindE (weight ''economic_stability'') (\<lambda>w3.
     bindE (calculate_category_score (Some (Social (social_indicators c)))) (\<lambda>social_ind_score.
     bindE (weight ''social_indicators'') (\<lambda>w4.
     bindE (calculate_category_score (Some (Illicit (illicit_markets c)))) (\<lambda>illicit_mkt_score.
     bindE (weight ''illicit_markets'') (\<lambda>w5.
       Inr (py_sum v [fmul pol_stab_score w1, fmul sec_env_score w2, fmul econ_stab_score w3,
                      fmul social_ind_score w4, fmul illicit_mkt_score w5])))))))))))"

text \<open>The \<open>if\<close>/\<open>elif\<close> chain of \<open>get_threat_level\<close> on its local \<open>score\<close>.\<close>

definition threat_level_of_score :: "pyfloat \<Rightarrow> string" where
  "threat_level_of_score score =
     (if fle (float_lit 1) score \<and> fle score (float_lit 2) then ''LOW''
      else if fle (float_lit (21 / 10)) score \<and> fle score (float_lit 4) then ''MODERATE''
      else if fle (float_lit (41 / 10)) score \<and> fle score (float_lit 6) then ''ELEVATED''
      else if fle (float_lit (61 / 10)) score \<and> fle score (float_lit 8) then ''HIGH''
      else if fle (float_lit (81 / 10)) score \<and> fle score (float_lit 10) then ''EXTREME''
      else ''UNDEFINED'')"

definition get_threat_level :: "cpython \<Rightarrow> CountryData \<Rightarrow> py_error + string" where
  "get_threat_level v c =
     bindE (calculate_threat_score v c) (\<lambda>score. Inr (threat_level_of_score score))"

definition descriptions :: "(string \<times> string) list" where
  "descriptions =
     [(''LOW'', ''Stable with minimal risks''),
      (''MODERATE'', ''Some concerns but manageable''),
      (''ELEVATED'', ''Significant risks requiring monitoring''),
      (''HIGH'', ''Serious threats with potential for instability''),
      (''EXTREME'', ''Critical threats with high probability of crisis''),
      (''UNDEFINED'', ''Score out of range.'')]"

definition colors_map :: "(string \<times> string) list" where
  "colors_map =
     [(''LOW'', ''#28a745''),
      (''MODERATE'', ''#ffc107''),
      (''ELEVATED'', ''#17a2b8''),
      (''HIGH'', ''#fd7e14''),
      (''EXTREME'', ''#dc3545''),
      (''UNDEFINED'', ''#6c757d'')]"

text \<open>The six level names.\<close>

definition threat_levels :: "string list" where
  "threat_levels = [''LOW'', ''MODERATE'', ''ELEVATED'', ''HIGH'', ''EXTREME'', ''UNDEFINED'']"

text \<open>\<open>d.get(k, default)\<close> on a dictionary literal.\<close>

definition dict_get :: "(string \<times> string) list \<Rightarrow> string \<Rightarrow> string \<Rightarrow> string" where
  "dict_get d k dflt = (case map_of d k of None \<Rightarrow> dflt | Some v \<Rightarrow> v)"

definition get_threat_description :: "cpython \<Rightarrow> CountryData \<Rightarrow> py_error + string" where
  "get_threat_description v c =
     bindE (get_threat_level v c) (\<lambda>level. Inr (dict_get descriptions level ''N/A''))"

definition get_threat_color :: "cpython \<Rightarrow> CountryData \<Rightarrow> py_error + string" where
  "get_threat_color v c =
     bindE (get_threat_level v c) (\<lambda>level. Inr (dict_get colors_map level ''#6c757d''))"

text \<open>
  The 22 indicators of a record, and the validity of a record: every indicator lies in
  the closed range from 1 to 10.
\<close>

definition indicators :: "CountryData \<Rightarrow> int list" where
  "indicators c =
     dataclass_fields (Political (political_stability c)) @
     dataclass_fields (Security (security_environment c)) @
     dataclass_fields (Economic (economic_stability c)) @
     dataclass_fields (Social (social_indicators c)) @
     dataclass_fields (Illicit (illicit_markets c))"

definition in_range :: "int \<Rightarrow> bool" where
  "in_range v = (1 \<le> v \<and> v \<le> 10)"

definition valid_record :: "CountryData \<Rightarrow> bool" where
  "valid_record c = list_all in_range (indicators c)"

text \<open>The arithmetic mean of a list of integers, as a rational number.\<close>

definition arithmetic_mean :: "int list \<Rightarrow> rat" where
  "arithmetic_mean xs = of_int (sum_list xs) / of_int (int (length xs))"

text \<open>A record with all 22 indicators equal, used as an example.\<close>

definition uniform_record :: "int \<Rightarrow> CountryData" where
  "uniform_record v =
     \<lparr>name = ''Brazil-2'',
      political_stability =
        \<lparr>government_legitimacy = v, political_violence = v, institutional_strength = v,
         leadership_stability = v\<rparr>,
      security_environment =
        \<lparr>internal_conflict = v, regional_security = v, law_enforcement = v,
         military_factors = v\<rparr>,
      economic_stability =
        \<lparr>economic_performance = v, fiscal_health = v, trade_dependencies = v,
         infrastructure_resilience = v\<rparr>,
      social_indicators =
        \<lparr>social_cohesion = v, human_development = v, demographic_pressures = v,
         information_environment = v\<rparr>,
      illicit_markets =
        \<lparr>drug_trade = v, human_trafficking = v, arms_trafficking = v, financial_crimes = v,
         cybercrime_operations = v, state_response_capacity = v\<rparr>,
      key_risk_factors = ''Commodity dependence'',
      trend_analysis = '''',
      recommendations = ''Monitor''\<rparr>"

section \<open>Database handler\<close>

text \<open>
  One row of the table \<open>countries\<close>, with its columns in schema order (the order in which
  \<open>SELECT *\<close> returns them). The three note columns are nullable text. The two
  timestamps are seconds on the clock of the database engine.
\<close>

record row =
  id_col :: int
  name_col :: string
  ps_government_legitimacy :: int
  ps_political_violence :: int
  ps_institutional_strength :: int
  ps_leadership_stability :: int
  se_internal_conflict :: int
  se_regional_security :: int
  se_law_enforcement :: int
  se_military_factors :: int
  es_economic_performance :: int
  es_fiscal_health :: int
  es_trade_dependencies :: int
  es_infrastructure_resilience :: int
  si_social_cohesion :: int
  si_human_development :: int
  si_demographic_pressures :: int
  si_information_environment :: int
  im_drug_trade :: int
  im_human_trafficking :: int
  im_arms_trafficking :: int
  im_financial_crimes :: int
  im_cybercrime_operations :: int
  im_state_response_capacity :: int
  key_risk_factors_col :: "string option"
  trend_analysis_col :: "string option"
  recommendations_col :: "string option"
  created_at :: nat
  updated_at :: nat

text \<open>
  The table: its rows in rowid order, and the largest rowid handed out so far
  (\<open>AUTOINCREMENT\<close>).
\<close>

record database =
  rows :: "row list"
  seq :: int

definition init_database :: database where
  "init_database = \<lparr>rows = [], seq = 0\<rparr>"

text \<open>A Python int is bound to an \<open>INTEGER\<close> parameter only if it fits 64 signed bits.\<close>

definition fits_int64 :: "int \<Rightarrow> bool" where
  "fits_int64 v = (- (2 ^ 63) \<le> v \<and> v < 2 ^ 63)"

text \<open>
  The row that \<open>save_country\<close> writes at time \<open>now\<close> under the rowid \<open>i\<close>: the statement
  binds the name, the 22 indicators and the three notes, sets \<open>updated_at\<close> to
  \<open>CURRENT_TIMESTAMP\<close>, and leaves \<open>created_at\<close> to its default, \<open>CURRENT_TIMESTAMP\<close> too.
\<close>

definition row_of_country :: "nat \<Rightarrow> int \<Rightarrow> CountryData \<Rightarrow> row" where
  "row_of_country now i country =
     \<lparr>id_col = i,
      name_col = name country,
      ps_government_legitimacy = government_legitimacy (political_stability country),
      ps_political_violence = political_violence (political_stability country),
      ps_institutional_strength = institutional_strength (political_stability country),
      ps_leadership_stability = leadership_stability (political_stability country),
      se_internal_conflict = internal_conflict (security_environment country),
      se_regional_security = regional_security (security_environment country),
      se_law_enforcement = law_enforcement (security_environment country),
      se_military_factors = military_factors (security_environment country),
      es_economic_performance = economic_performance (economic_stability country),
      es_fiscal_health = fiscal_health (economic_stability country),
      es_trade_dependencies = trade_dependencies (economic_stability country),
      es_infrastructure_resilience = infrastructure_resilience (economic_stability country),
      si_social_cohesion = social_cohesion (social_indicators country),
      si_human_development = human_development (social_indicators country),
      si_demographic_pressures = demographic_pressures (social_indicators country),
      si_information_environment = information_environment (social_indicators country),
      im_drug_trade = drug_trade (illicit_markets country),
      im_human_trafficking = human_trafficking (illicit_markets country),
      im_arms_trafficking = arms_trafficking (illicit_markets country),
      im_financial_crimes = financial_crimes (illicit_markets country),
      im_cybercrime_operations = cybercrime_operations (illicit_markets country),
      im_state_response_capacity = state_response_capacity (illicit_markets country),
      key_risk_factors_col = Some (key_risk_factors country),
      trend_analysis_col = Some (trend_analysis country),
      recommendations_col = Some (recommendations country),
      created_at = now,
      updated_at = now\<rparr>"

text \<open>
  \<open>INSERT OR REPLACE\<close> at time \<open>now\<close>: a row whose \<open>name\<close> collides with the new one on
  the \<open>UNIQUE\<close> constraint is deleted, and a fresh row is inserted under the next rowid.
  An indicator that does not fit 64 bits cannot be bound and raises \<open>OverflowError\<close>.
\<close>

definition save_country :: "nat \<Rightarrow> database \<Rightarrow> CountryData \<Rightarrow> py_error + database" where
  "save_country now d country =
     (if list_all fits_int64 (indicators country) then
        Inr \<lparr>rows =
               filter (\<lambda>r. name_col r \<noteq> name country) (rows d) @
               [row_of_country now (seq d + 1) country],
             seq = seq d + 1\<rparr>
      else Inl (OverflowError ''Python int too large to convert to SQLite INTEGER''))"

text \<open>\<open>v or ""\<close> on a nullable text value.\<close>

definition or_empty :: "string option \<Rightarrow> string" where
  "or_empty v = (case v of None \<Rightarrow> [] | Some s \<Rightarrow> if s = [] then [] else s)"

definition country_of_row :: "row \<Rightarrow> CountryData" where
  "country_of_row r =
     \<lparr>name = name_col r,
      political_stability =
        \<lparr>government_legitimacy = ps_government_legitimacy r,
         political_violence = ps_political_violence r,
         institutional_strength = ps_institutional_strength r,
         leadership_stability = ps_leadership_stability r\<rparr>,
      security_environment =
        \<lparr>internal_conflict = se_internal_conflict r,
         regional_security = se_regional_security r,
         law_enforcement = se_law_enforcement r,
         military_factors = se_military_factors r\<rparr>,
      economic_stability =
        \<lparr>economic_performance = es_economic_performance r,
         fiscal_health = es_fiscal_health r,
         trade_dependencies = es_trade_dependencies r,
         infrastructure_resilience = es_infrastructure_resilience r\<rparr>,
      social_indicators =
        \<lparr>social_cohesion = si_social_cohesion r,
         human_development = si_human_development r,
         demographic_pressures = si_demographic_pressures r,
         information_environment = si_information_environment r\<rparr>,
      illicit_markets =
        \<lparr>drug_trade = im_drug_trade r,
         human_trafficking = im_human_trafficking r,
         arms_trafficking = im_arms_trafficking r,
         financial_crimes = im_financial_crimes r,
         cybercrime_operations = im_cybercrime_operations r,
         state_response_capacity = im_state_response_capacity r\<rparr>,
      key_risk_factors = or_empty (key_risk_factors_col r),
      trend_analysis = or_empty (trend_analysis_col r),
      recommendations = or_empty (recommendations_col r)\<rparr>"

text \<open>The loop over the fetched rows: \<open>countries[row[1]] = country\<close>.\<close>

definition load_rows :: "row list \<Rightarrow> (string \<rightharpoonup> CountryData)" where
  "load_rows rs = foldl (\<lambda>countries r. countries(name_col r \<mapsto> country_of_row r)) Map.empty rs"

definition load_all_countries :: "database \<Rightarrow> (string \<rightharpoonup> CountryData)" where
  "load_all_countries d = load_rows (rows d)"

definition delete_country :: "database \<Rightarrow> string \<Rightarrow> database" where
  "delete_country d country_name =
     d\<lparr>rows := filter (\<lambda>r. name_col r \<noteq> country_name) (rows d)\<rparr>"

text \<open>A database holding one record, used as an example.\<close>

definition example_database :: database where
  "example_database = \<lparr>rows = [row_of_country 100 1 (uniform_record 5)], seq = 1\<rparr>"

section \<open>The form handler \<open>add_country\<close>\<close>

text \<open>
  The state of the input form: the name entry, the integer variable behind each of the 22
  sliders, and the three note boxes. The application keeps the loaded records in a
  dictionary beside the database; the dictionary is an association list with one entry
  for each key, since \<open>update_country_list\<close> goes through it.
\<close>

record form =
  country_name :: string
  political_stability_vars :: PoliticalStabilityMetrics
  security_environment_vars :: SecurityEnvironmentMetrics
  economic_stability_vars :: EconomicStabilityMetrics
  social_indicators_vars :: SocialIndicatorsMetrics
  illicit_markets_vars :: IllicitMarketsMetrics
  key_risk_factors_text :: string
  trend_analysis_text :: string
  recommendations_text :: string

record app =
  countries :: "(string \<times> CountryData) list"
  db :: database











section \<open>Properties of the rounding\<close>

definition expo :: "rat \<Rightarrow> int" where
  "expo x = max (ilog2 x) (- 1022)"

text \<open>\<open>on_grid q x\<close>: the number \<open>x\<close> is an integer multiple of \<open>2 powi q\<close>.\<close>

definition on_grid :: "int \<Rightarrow> rat \<Rightarrow> bool" where
  "on_grid q x = (of_int \<lfloor>x * 2 powi (- q)\<rfloor> = x * 2 powi (- q))"

lemma round_half_even_of_int: "round_half_even (of_int n) = n"
  by (simp add: round_half_even_def)

lemma round_half_even_upper: "of_int (round_half_even q) \<le> q + 1 / 2"
  unfolding round_half_even_def Let_def by (auto; linarith)

lemma round_half_even_lower: "q - 1 / 2 \<le> of_int (round_half_even q)"
  unfolding round_half_even_def Let_def by (auto; linarith)

lemma round_half_even_mono:
  assumes "p \<le> q"
  shows "round_half_even p \<le> round_half_even q"
proof (cases "\<lfloor>p\<rfloor> = \<lfloor>q\<rfloor>")
  case True
  then show ?thesis
    using assms unfolding round_half_even_def Let_def by auto
next
  case False
  then have lt: "\<lfloor>p\<rfloor> + 1 \<le> \<lfloor>q\<rfloor>"
    using floor_mono [OF assms] by linarith
  have "round_half_even p \<le> \<lfloor>p\<rfloor> + 1"
    unfolding round_half_even_def Let_def by auto
  moreover have "\<lfloor>q\<rfloor> \<le> round_half_even q"
    unfolding round_half_even_def Let_def by auto
  ultimately show ?thesis using lt by linarith
qed

lemma ilog2_bounds:
  assumes "0 < x"
  shows "2 powi (ilog2 x) \<le> x" and "x < 2 powi (ilog2 x + 1)"
proof -
  have "2 powi (ilog2 x) \<le> x \<and> x < 2 powi (ilog2 x + 1)"
  proof (cases "1 \<le> x")
    case True
    define n where "n = \<lfloor>x\<rfloor>"
    have npos: "0 < n" using True by (simp add: n_def)
    have b: "2 ^ nat (bitlen n - 1) \<le> n" "n < 2 ^ nat (bitlen n)"
      using bitlen_bounds [OF npos] by auto
    have bl: "1 \<le> bitlen n"
      using npos by (auto simp: bitlen_alt_def)
    have e: "ilog2 x = bitlen n - 1" using True by (simp add: ilog2_def n_def)
    have "(2::rat) powi (bitlen n - 1) = of_int (2 ^ nat (bitlen n - 1))"
      using bl by (simp add: power_int_def)
    also have "\<dots> \<le> of_int n" using b(1) by (simp only: of_int_le_iff)
    also have "\<dots> \<le> x" by (simp add: n_def)
    finally have lo: "2 powi (ilog2 x) \<le> x" by (simp add: e)
    have "n + 1 \<le> 2 ^ nat (bitlen n)" using b(2) by simp
    then have "(of_int (n + 1) :: rat) \<le> of_int (2 ^ nat (bitlen n))"
      by (simp only: of_int_le_iff)
    moreover have "x < of_int (n + 1)" unfolding n_def by linarith
    moreover have "(2::rat) powi (bitlen n - 1 + 1) = of_int (2 ^ nat (bitlen n))"
      using bl by (simp add: power_int_def)
    ultimately have "x < 2 powi (ilog2 x + 1)" by (simp add: e)
    with lo show ?thesis by simp
  next
    case False
    define y where "y = 1 / x"
    define c where "c = \<lceil>y\<rceil>"
    define k where "k = bitlen (c - 1)"
    have y1: "1 < y" using False assms by (simp add: y_def)
    have c2: "2 \<le> c" using y1 unfolding c_def by linarith
    have cpos: "0 < c - 1" using c2 by simp
    have b: "2 ^ nat (k - 1) \<le> c - 1" "c - 1 < 2 ^ nat k"
      using bitlen_bounds [OF cpos] by (auto simp: k_def)
    have k1: "1 \<le> k" using cpos by (auto simp: k_def bitlen_alt_def)
    have e: "ilog2 x = - k" using False by (simp add: ilog2_def k_def c_def y_def)
    have ypos: "0 < y" using y1 by simp
    have xy: "x = 1 / y" using assms by (simp add: y_def)
    have "c \<le> 2 ^ nat k" using b(2) by simp
    then have "(of_int c :: rat) \<le> 2 ^ nat k" by simp
    moreover have "y \<le> of_int c" by (simp add: c_def)
    ultimately have "y \<le> 2 ^ nat k" by (rule order_trans [rotated])
    then have "1 / (2 ^ nat k) \<le> 1 / y"
      using ypos by (simp add: frac_le)
    moreover have "(2::rat) powi (- k) = 1 / 2 ^ nat k"
      using k1 by (simp add: power_int_def field_simps)
    ultimately have lo: "2 powi (ilog2 x) \<le> x" using e xy by simp
    have "(2 ^ nat (k - 1) :: rat) \<le> of_int (c - 1)"
      using b(1) by (metis of_int_le_iff of_int_numeral of_int_power)
    moreover have "of_int (c - 1) < y" unfolding c_def by linarith
    ultimately have "2 ^ nat (k - 1) < y" by (rule le_less_trans)
    then have "1 / y < 1 / (2 ^ nat (k - 1))"
      by (simp add: frac_less2)
    moreover have "(2::rat) powi (- k + 1) = 1 / 2 ^ nat (k - 1)"
      using k1 by (simp add: power_int_def field_simps)
    ultimately have "x < 2 powi (ilog2 x + 1)" using e xy by simp
    with lo show ?thesis by simp
  qed
  then show "2 powi (ilog2 x) \<le> x" and "x < 2 powi (ilog2 x + 1)" by auto
qed


lemma pow2_shift: "(2::rat) ^ n * 2 powi (e - int n) = 2 powi e"
proof -
  have "(2::rat) powi (int n + (e - int n)) = 2 powi int n * 2 powi (e - int n)"
    by (rule power_int_add) simp
  then show ?thesis by simp
qed

lemma d64_pos:
  "0 < x \<Longrightarrow>
   d64 x = of_int (round_half_even (x * 2 powi (52 - expo x))) * 2 powi (expo x - 52)"
  by (simp add: d64_def Let_def expo_def)

lemma d64_uminus: "d64 (- x) = - d64 x"
  by (simp add: d64_def Let_def)

lemma d64_zero: "d64 0 = 0"
  by (simp add: d64_def)

lemma scaled_upper:
  assumes "0 < x"
  shows "x * 2 powi (52 - expo x) < 2 ^ 53"
proof -
  define e where "e = expo x"
  define s :: rat where "s = 2 powi (52 - e)"
  have spos: "0 < s" by (simp add: s_def)
  have hi: "(2::rat) powi (e + 1) * s = 2 ^ 53"
    unfolding s_def by (simp flip: power_int_add)
  have "ilog2 x + 1 \<le> e + 1" by (simp add: e_def expo_def)
  then have "(2::rat) powi (ilog2 x + 1) \<le> 2 powi (e + 1)"
    by (intro power_int_increasing) simp_all
  then have "x < 2 powi (e + 1)"
    using ilog2_bounds(2) [OF assms] by linarith
  then have "x * s < 2 powi (e + 1) * s"
    using spos by (simp add: mult_right_mono)
  then have "x * s < 2 ^ 53" by (simp only: hi)
  then show ?thesis by (simp only: s_def e_def)
qed

lemma scaled_lower:
  assumes "0 < x" and "- 1022 \<le> ilog2 x"
  shows "2 ^ 52 \<le> x * 2 powi (52 - expo x)"
proof -
  define e where "e = expo x"
  define s :: rat where "s = 2 powi (52 - e)"
  have spos: "0 < s" by (simp add: s_def)
  have ee: "e = ilog2 x" using assms(2) by (simp add: e_def expo_def)
  have lo: "(2::rat) powi e * s = 2 ^ 52"
    unfolding s_def by (simp flip: power_int_add)
  have "2 powi e \<le> x"
    using ilog2_bounds(1) [OF assms(1)] by (simp add: ee)
  then have "2 powi e * s \<le> x * s"
    using spos by (simp add: mult_right_mono)
  then have "2 ^ 52 \<le> x * s" by (simp only: lo)
  then show ?thesis by (simp only: s_def e_def)
qed

lemma mantissa_upper:
  assumes "0 < x"
  shows "round_half_even (x * 2 powi (52 - expo x)) \<le> 2 ^ 53"
proof -
  have "round_half_even (x * 2 powi (52 - expo x)) \<le> round_half_even (of_int (2 ^ 53))"
    using scaled_upper [OF assms] by (intro round_half_even_mono) simp
  then show ?thesis by (simp only: round_half_even_of_int)
qed

lemma mantissa_lower:
  assumes "0 < x" and "- 1022 \<le> ilog2 x"
  shows "2 ^ 52 \<le> round_half_even (x * 2 powi (52 - expo x))"
proof -
  have "round_half_even (of_int (2 ^ 52)) \<le> round_half_even (x * 2 powi (52 - expo x))"
    using scaled_lower [OF assms] by (intro round_half_even_mono) simp
  then show ?thesis by (simp only: round_half_even_of_int)
qed

lemma mantissa_nonneg:
  assumes "0 < x"
  shows "0 \<le> round_half_even (x * 2 powi (52 - expo x))"
proof -
  have "(0::rat) \<le> x * 2 powi (52 - expo x)" using assms by simp
  then have "round_half_even (of_int 0) \<le> round_half_even (x * 2 powi (52 - expo x))"
    by (intro round_half_even_mono) simp
  then show ?thesis by (simp only: round_half_even_of_int)
qed

lemma d64_upper:
  assumes "0 < x"
  shows "d64 x \<le> 2 powi (expo x + 1)"
proof -
  define e where "e = expo x"
  define m where "m = round_half_even (x * 2 powi (52 - e))"
  define u :: rat where "u = 2 powi (e - 52)"
  have upos: "0 < u" by (simp add: u_def)
  have d: "d64 x = of_int m * u"
    using assms by (simp add: d64_pos m_def u_def e_def)
  have m2: "(of_int m :: rat) \<le> 2 ^ 53"
    using mantissa_upper [OF assms] unfolding m_def e_def
    by (metis of_int_le_iff of_int_numeral of_int_power)
  have hi: "(2::rat) powi (e + 1) = 2 ^ 53 * u"
    unfolding u_def using pow2_shift [of 53 "e + 1"] by simp
  have "of_int m * u \<le> 2 ^ 53 * u"
    using m2 upos by (simp add: mult_right_mono)
  then have "d64 x \<le> 2 powi (e + 1)" by (simp only: hi d)
  then show ?thesis by (simp only: e_def)
qed

lemma d64_lower:
  assumes "0 < x" and "- 1022 \<le> ilog2 x"
  shows "2 powi (expo x) \<le> d64 x"
proof -
  define e where "e = expo x"
  define m where "m = round_half_even (x * 2 powi (52 - e))"
  define u :: rat where "u = 2 powi (e - 52)"
  have upos: "0 < u" by (simp add: u_def)
  have d: "d64 x = of_int m * u"
    using assms by (simp add: d64_pos m_def u_def e_def)
  have m1: "(2 ^ 52 :: rat) \<le> of_int m"
    using mantissa_lower [OF assms] unfolding m_def e_def
    by (metis of_int_le_iff of_int_numeral of_int_power)
  have lo: "(2::rat) powi e = 2 ^ 52 * u"
    unfolding u_def using pow2_shift [of 52 e] by simp
  have "2 ^ 52 * u \<le> of_int m * u"
    using m1 upos by (simp add: mult_right_mono)
  then have "2 powi e \<le> d64 x" by (simp only: lo d)
  then show ?thesis by (simp only: e_def)
qed

lemma d64_nonneg:
  assumes "0 \<le> x"
  shows "0 \<le> d64 x"
proof (cases "x = 0")
  case True
  then show ?thesis by (simp add: d64_zero)
next
  case False
  then have xpos: "0 < x" using assms by simp
  have "(0::rat) \<le> of_int (round_half_even (x * 2 powi (52 - expo x)))"
    using mantissa_nonneg [OF xpos] by simp
  then show ?thesis using xpos by (simp add: d64_pos)
qed

lemma ilog2_mono:
  assumes "0 < x" and "x \<le> y"
  shows "ilog2 x \<le> ilog2 y"
proof (rule ccontr)
  assume "\<not> ilog2 x \<le> ilog2 y"
  then have "ilog2 y + 1 \<le> ilog2 x" by simp
  then have "(2::rat) powi (ilog2 y + 1) \<le> 2 powi (ilog2 x)"
    by (intro power_int_increasing) simp_all
  moreover have "y < 2 powi (ilog2 y + 1)"
    using assms by (intro ilog2_bounds(2)) simp
  moreover have "2 powi (ilog2 x) \<le> x"
    using assms by (intro ilog2_bounds(1))
  ultimately show False using assms(2) by linarith
qed

lemma d64_mono_pos:
  assumes "0 < x" and "x \<le> y"
  shows "d64 x \<le> d64 y"
proof (cases "expo x = expo y")
  case True
  have ypos: "0 < y" using assms by simp
  have "x * 2 powi (52 - expo y) \<le> y * 2 powi (52 - expo y)"
    using assms(2) by (simp add: mult_right_mono)
  then have "round_half_even (x * 2 powi (52 - expo y))
      \<le> round_half_even (y * 2 powi (52 - expo y))"
    by (rule round_half_even_mono)
  then have "(of_int (round_half_even (x * 2 powi (52 - expo y))) :: rat)
      \<le> of_int (round_half_even (y * 2 powi (52 - expo y)))"
    by (simp only: of_int_le_iff)
  then show ?thesis
    using assms(1) ypos True by (simp add: d64_pos mult_right_mono)
next
  case False
  have ypos: "0 < y" using assms by simp
  have le: "ilog2 x \<le> ilog2 y" using assms by (rule ilog2_mono)
  then have lt: "expo x + 1 \<le> expo y"
    using False by (simp add: expo_def max_def split: if_splits)
  then have norm: "- 1022 \<le> ilog2 y"
    using le by (simp add: expo_def max_def split: if_splits)
  have "(2::rat) powi (expo x + 1) \<le> 2 powi (expo y)"
    using lt by (intro power_int_increasing) simp_all
  then show ?thesis
    using d64_upper [OF assms(1)] d64_lower [OF ypos norm] by linarith
qed

lemma d64_mono:
  assumes "x \<le> y"
  shows "d64 x \<le> d64 y"
proof -
  consider "0 < x" | "x \<le> 0" "0 \<le> y" | "y < 0"
    using assms by linarith
  then show ?thesis
  proof cases
    case 1
    then show ?thesis using assms by (rule d64_mono_pos)
  next
    case 2
    have "0 \<le> d64 (- x)" using 2 by (intro d64_nonneg) simp
    then have "d64 x \<le> 0" by (simp add: d64_uminus)
    moreover have "0 \<le> d64 y" using 2 by (intro d64_nonneg)
    ultimately show ?thesis by simp
  next
    case 3
    have "d64 (- y) \<le> d64 (- x)"
      using 3 assms by (intro d64_mono_pos) simp_all
    then show ?thesis by (simp add: d64_uminus)
  qed
qed

lemma d64_error_pos:
  assumes "0 < x" and "- 1022 \<le> ilog2 x"
  shows "\<bar>d64 x - x\<bar> \<le> x / 2 ^ 53"
proof -
  define e where "e = expo x"
  define t where "t = x * 2 powi (52 - e)"
  define u :: rat where "u = 2 powi (e - 52)"
  have upos: "0 < u" by (simp add: u_def)
  have ee: "e = ilog2 x" using assms(2) by (simp add: e_def expo_def)
  have d: "d64 x = of_int (round_half_even t) * u"
    using assms by (simp add: d64_pos t_def u_def e_def)
  have "(2::rat) powi (52 - e) * u = 1"
    unfolding u_def by (simp flip: power_int_add)
  then have x: "x = t * u" by (simp add: t_def mult.assoc)
  have "\<bar>of_int (round_half_even t) - t\<bar> \<le> 1 / 2"
    using round_half_even_upper [of t] round_half_even_lower [of t] by linarith
  then have "\<bar>of_int (round_half_even t) - t\<bar> * u \<le> 1 / 2 * u"
    using upos by (simp add: mult_right_mono)
  moreover have "\<bar>d64 x - x\<bar> = \<bar>of_int (round_half_even t) - t\<bar> * u"
    using upos by (subst d, subst x) (simp add: abs_mult flip: left_diff_distrib)
  moreover have "1 / 2 * u = 2 powi e / 2 ^ 53"
    unfolding u_def using power_int_add [of "2::rat" e "- 52"] by (simp add: power_int_minus field_simps)
  moreover have "2 powi e / 2 ^ 53 \<le> x / (2 ^ 53 :: rat)"
    using ilog2_bounds(1) [OF assms(1)] by (simp add: ee divide_right_mono)
  ultimately show ?thesis by linarith
qed

subsection \<open>Values that are rounded to themselves\<close>

lemma pow2_cancel: "(2::rat) powi q * 2 powi (- q) = 1"
  by (simp flip: power_int_add)

lemma on_grid_iff: "on_grid q x = (\<exists>m::int. x = of_int m * 2 powi q)"
proof
  assume "on_grid q x"
  then have "x * 2 powi (- q) = of_int \<lfloor>x * 2 powi (- q)\<rfloor>"
    unfolding on_grid_def by (rule sym)
  then have "x * 2 powi (- q) * 2 powi q = of_int \<lfloor>x * 2 powi (- q)\<rfloor> * 2 powi q"
    by simp
  moreover have "x * 2 powi (- q) * 2 powi q = x"
    using pow2_cancel [of q] by (simp add: mult.assoc mult.commute)
  ultimately have "x = of_int \<lfloor>x * 2 powi (- q)\<rfloor> * 2 powi q" by simp
  then show "\<exists>m::int. x = of_int m * 2 powi q" by (rule exI)
next
  assume "\<exists>m::int. x = of_int m * 2 powi q"
  then obtain m :: int where "x = of_int m * 2 powi q" by blast
  then have "x * 2 powi (- q) = of_int m"
    using pow2_cancel [of q] by (simp add: mult.assoc)
  then show "on_grid q x" by (simp add: on_grid_def)
qed

lemma on_gridI: "x = of_int m * 2 powi q \<Longrightarrow> on_grid q x"
  unfolding on_grid_iff by blast

lemma on_grid_zero: "on_grid q 0"
  by (rule on_gridI [of _ 0]) simp

lemma on_grid_add: "on_grid q x \<Longrightarrow> on_grid q y \<Longrightarrow> on_grid q (x + y)"
  unfolding on_grid_iff
proof (elim exE)
  fix m n :: int
  assume "x = of_int m * 2 powi q" and "y = of_int n * 2 powi q"
  then have "x + y = of_int (m + n) * 2 powi q" by (simp add: distrib_right)
  then show "\<exists>k::int. x + y = of_int k * 2 powi q" by blast
qed

lemma on_grid_uminus: "on_grid q x \<Longrightarrow> on_grid q (- x)"
  unfolding on_grid_iff
proof (elim exE)
  fix m :: int
  assume "x = of_int m * 2 powi q"
  then have "- x = of_int (- m) * 2 powi q" by simp
  then show "\<exists>k::int. - x = of_int k * 2 powi q" by blast
qed

lemma on_grid_diff: "on_grid q x \<Longrightarrow> on_grid q y \<Longrightarrow> on_grid q (x - y)"
  using on_grid_add [of q x "- y"] on_grid_uminus [of q y] by simp

lemma on_grid_coarse:
  assumes "on_grid q x" and "q' \<le> q"
  shows "on_grid q' x"
proof -
  obtain m :: int where x: "x = of_int m * 2 powi q" using assms(1) unfolding on_grid_iff by blast
  define n where "n = nat (q - q')"
  have q: "q = int n + q'" using assms(2) by (simp add: n_def)
  have "(2::rat) powi q = 2 powi int n * 2 powi q'"
    unfolding q by (rule power_int_add) simp
  then have "x = of_int (m * 2 ^ n) * 2 powi q'" by (simp add: x)
  then show ?thesis by (rule on_gridI)
qed

lemma on_grid_double: "on_grid q x \<Longrightarrow> on_grid (q + 1) (2 * x)"
proof -
  assume "on_grid q x"
  then obtain m :: int where x: "x = of_int m * 2 powi q" unfolding on_grid_iff by blast
  have "(2::rat) powi (q + 1) = 2 powi q * 2 powi 1" by (rule power_int_add) simp
  then have "2 * x = of_int m * 2 powi (q + 1)" by (simp add: x)
  then show ?thesis by (rule on_gridI)
qed

lemma pow2_less_imp:
  assumes "(2::rat) powi a < 2 powi b"
  shows "a < b"
proof (rule ccontr)
  assume "\<not> a < b"
  then have "b \<le> a" by simp
  then have "(2::rat) powi b \<le> 2 powi a" by (rule power_int_increasing) simp
  with assms show False by simp
qed

lemma pow2_less: "a < b \<Longrightarrow> (2::rat) powi a < 2 powi b"
  by (rule power_int_strict_increasing) simp_all

lemma ilog2_ge:
  assumes "0 < x" and "2 powi k \<le> x"
  shows "k \<le> ilog2 x"
proof -
  have "(2::rat) powi k < 2 powi (ilog2 x + 1)"
    using assms(2) ilog2_bounds(2) [OF assms(1)] by (rule le_less_trans)
  then have "k < ilog2 x + 1" by (rule pow2_less_imp)
  then show ?thesis by simp
qed

lemma ilog2_less:
  assumes "0 < x" and "x < 2 powi k"
  shows "ilog2 x < k"
proof -
  have "(2::rat) powi ilog2 x < 2 powi k"
    using ilog2_bounds(1) [OF assms(1)] assms(2) by (rule le_less_trans)
  then show ?thesis by (rule pow2_less_imp)
qed

lemma d64_on_grid_pos:
  assumes "0 < x" and "2 powi k \<le> x"
  shows "on_grid (k - 52) (d64 x)"
proof -
  have "k \<le> expo x" using ilog2_ge [OF assms] by (simp add: expo_def)
  moreover have "on_grid (expo x - 52) (d64 x)"
    by (rule on_gridI) (rule d64_pos [OF assms(1)])
  ultimately show ?thesis by (simp add: on_grid_coarse [of "expo x - 52" "d64 x" "k - 52"])
qed

lemma d64_exact_pos:
  assumes "on_grid q x" and "0 < x" and "x < 2 powi (q + 53)" and "- 1074 \<le> q"
  shows "d64 x = x"
proof -
  obtain m :: int where x: "x = of_int m * 2 powi q" using assms(1) unfolding on_grid_iff by blast
  define e where "e = expo x"
  have "ilog2 x < q + 53" using assms(2,3) by (rule ilog2_less)
  then have e: "e \<le> q + 52" using assms(4) by (simp add: e_def expo_def)
  define n where "n = nat (q + 52 - e)"
  have "(2::rat) powi (int n + (e - 52)) = 2 powi int n * 2 powi (e - 52)"
    by (rule power_int_add) simp
  moreover have "int n + (e - 52) = q" using e by (simp add: n_def)
  ultimately have q: "(2::rat) powi q = 2 ^ n * 2 powi (e - 52)" by simp
  have "(2::rat) powi (e - 52) * 2 powi (52 - e) = 1"
    by (simp flip: power_int_add)
  then have "x * 2 powi (52 - e) = of_int m * 2 ^ n"
    unfolding x q by (simp add: mult.assoc)
  then have "x * 2 powi (52 - e) = of_int (m * 2 ^ n)" by simp
  then have "round_half_even (x * 2 powi (52 - e)) = m * 2 ^ n"
    by (simp only: round_half_even_of_int)
  then have "d64 x = of_int (m * 2 ^ n) * 2 powi (e - 52)"
    using d64_pos [OF assms(2)] by (simp add: e_def)
  also have "\<dots> = x" unfolding x q by simp
  finally show ?thesis .
qed

lemma d64_exact:
  assumes "on_grid q x" and "\<bar>x\<bar> < 2 powi (q + 53)" and "- 1074 \<le> q"
  shows "d64 x = x"
proof (cases "0 < x")
  case True
  then show ?thesis using assms by (intro d64_exact_pos [of q]) simp_all
next
  case False
  show ?thesis
  proof (cases "x = 0")
    case True
    then show ?thesis by (simp add: d64_zero)
  next
    case False
    with \<open>\<not> 0 < x\<close> have neg: "0 < - x" by simp
    have "d64 (- x) = - x"
      using assms neg by (intro d64_exact_pos [of q] on_grid_uminus) simp_all
    then show ?thesis by (simp add: d64_uminus)
  qed
qed

lemma d64_idem_pos:
  assumes "0 < x"
  shows "d64 (d64 x) = d64 x"
proof -
  define e where "e = expo x"
  define m where "m = round_half_even (x * 2 powi (52 - e))"
  have d: "d64 x = of_int m * 2 powi (e - 52)"
    using d64_pos [OF assms] by (simp add: m_def e_def)
  have e: "- 1022 \<le> e" by (simp add: e_def expo_def)
  have m0: "0 \<le> m" using mantissa_nonneg [OF assms] by (simp add: m_def e_def)
  have m1: "m \<le> 2 ^ 53" using mantissa_upper [OF assms] by (simp add: m_def e_def)
  have p: "(2::rat) ^ 53 * 2 powi (e - 52) = 2 powi (e + 1)"
    using pow2_shift [of 53 "e + 1"] by simp
  show ?thesis
  proof (cases "m = 2 ^ 53")
    case True
    then have v: "d64 x = 2 powi (e + 1)" using d p by simp
    have "on_grid (e + 1) (d64 x)" by (rule on_gridI [of _ 1]) (simp add: v)
    moreover have "\<bar>d64 x\<bar> < 2 powi (e + 1 + 53)"
      unfolding v using pow2_less [of "e + 1" "e + 1 + 53"] by simp
    ultimately show ?thesis using e by (intro d64_exact [of "e + 1"]) simp_all
  next
    case False
    then have "m < 2 ^ 53" using m1 by simp
    then have "(of_int m :: rat) < of_int (2 ^ 53)" by (simp only: of_int_less_iff)
    then have "(of_int m :: rat) < 2 ^ 53" by simp
    then have "of_int m * 2 powi (e - 52) < 2 ^ 53 * (2::rat) powi (e - 52)"
      by (rule mult_strict_right_mono) simp
    then have "d64 x < 2 powi (e + 1)" unfolding d p .
    then have "d64 x < 2 powi (e - 52 + 53)" by (simp add: add.commute)
    moreover have "0 \<le> d64 x" using assms by (intro d64_nonneg) simp
    moreover have "on_grid (e - 52) (d64 x)" by (rule on_gridI) (rule d)
    ultimately show ?thesis using e by (intro d64_exact [of "e - 52"]) simp_all
  qed
qed

lemma d64_idem: "d64 (d64 x) = d64 x"
proof (cases "0 < x")
  case True
  then show ?thesis by (rule d64_idem_pos)
next
  case False
  show ?thesis
  proof (cases "x = 0")
    case True
    then show ?thesis by (simp add: d64_zero)
  next
    case False
    with \<open>\<not> 0 < x\<close> have "0 < - x" by simp
    then have "d64 (d64 (- x)) = d64 (- x)" by (rule d64_idem_pos)
    then show ?thesis by (simp add: d64_uminus)
  qed
qed

section \<open>Evaluating the float operations\<close>

lemma d64_literals:
  "d64 1 = 1" "d64 2 = 2" "d64 4 = 4" "d64 6 = 6" "d64 8 = 8" "d64 10 = 10"
  "d64 (2 ^ 70) = 2 ^ 70"
  "d64 (21 / 10) = 4728779608739021 / 2251799813685248"
  "d64 (41 / 10) = 2308094809027379 / 562949953421312"
  "d64 (61 / 10) = 3433994715870003 / 562949953421312"
  "d64 (81 / 10) = 4559894622712627 / 562949953421312"
  "d64 (41 / 20) = 2308094809027379 / 1125899906842624"
  "d64 (1 / 4) = 1 / 4"
  "d64 (1 / 5) = 3602879701896397 / 18014398509481984"
  "d64 (3 / 20) = 5404319552844595 / 36028797018963968"
  by code_simp+

lemma fl_bounded:
  assumes "- (2 ^ 70) \<le> x" and "x \<le> 2 ^ 70"
  shows "fl x = Fin (d64 x)"
proof -
  have "d64 x \<le> d64 (2 ^ 70)" using assms(2) by (rule d64_mono)
  then have hi: "d64 x \<le> 2 ^ 70" by (simp only: d64_literals)
  have "d64 (- (2 ^ 70)) \<le> d64 x" using assms(1) by (rule d64_mono)
  then have lo: "- (2 ^ 70) \<le> d64 x" by (simp only: d64_uminus d64_literals)
  have "(2::rat) ^ 70 < 2 ^ 1024" by simp
  then show ?thesis using lo hi by (simp add: fl_def Let_def)
qed

lemma float_lit_values:
  "float_lit 0 = Fin 0" "float_lit 1 = Fin 1" "float_lit 2 = Fin 2" "float_lit 4 = Fin 4"
  "float_lit 6 = Fin 6" "float_lit 8 = Fin 8" "float_lit 10 = Fin 10"
  "float_lit (21 / 10) = Fin (4728779608739021 / 2251799813685248)"
  "float_lit (41 / 10) = Fin (2308094809027379 / 562949953421312)"
  "float_lit (61 / 10) = Fin (3433994715870003 / 562949953421312)"
  "float_lit (81 / 10) = Fin (4559894622712627 / 562949953421312)"
  "float_lit (41 / 20) = Fin (2308094809027379 / 1125899906842624)"
  "float_lit (1 / 4) = Fin (1 / 4)"
  "float_lit (1 / 5) = Fin (3602879701896397 / 18014398509481984)"
  "float_lit (3 / 20) = Fin (5404319552844595 / 36028797018963968)"
  unfolding float_lit_def
  by (simp_all add: fl_bounded d64_zero d64_literals)


lemma d64_chain:
  "d64 (3602879701896397 / 18014398509481984) = 3602879701896397 / 18014398509481984"
  "d64 (8106479329266893 / 18014398509481984) = 8106479329266893 / 18014398509481984"
  "d64 (5854679515581645 / 9007199254740992) = 5854679515581645 / 9007199254740992"
  "d64 (5404319552844595 / 36028797018963968) = 5404319552844595 / 36028797018963968"
  "d64 (28823037615171175 / 36028797018963968) = 3602879701896397 / 4503599627370496"
  "d64 (18014398509481985 / 18014398509481984) = 1"
  "d64 (5 / 2) = 5 / 2"
  "d64 (18014398509481985 / 9007199254740992) = 2"
  "d64 (9 / 2) = 9 / 2"
  "d64 (13 / 2) = 13 / 2"
  "d64 (27021597764222975 / 18014398509481984) = 3 / 2"
  "d64 (36028797018963969 / 36028797018963968) = 1"
  "d64 (3 / 2) = 3 / 2"
  by code_simp+

lemma d64_chain_six:
  "d64 (10808639105689191 / 9007199254740992) = 1351079888211149 / 1125899906842624"
  "d64 (16212958658533785 / 18014398509481984) = 2026619832316723 / 2251799813685248"
  "d64 (1351079888211149 / 1125899906842624) = 1351079888211149 / 1125899906842624"
  "d64 (2026619832316723 / 2251799813685248) = 2026619832316723 / 2251799813685248"
  "d64 (3039929748475085 / 1125899906842624) = 3039929748475085 / 1125899906842624"
  "d64 (2195504818343117 / 562949953421312) = 2195504818343117 / 562949953421312"
  "d64 (10808639105689191 / 2251799813685248) = 1351079888211149 / 281474976710656"
  "d64 (6755399441055745 / 1125899906842624) = 6755399441055745 / 1125899906842624"
  "d64 (13510798882111489 / 2251799813685248) = 6"
  by code_simp+

lemma fadd_bounded:
  "- (2 ^ 70) \<le> x + y \<Longrightarrow> x + y \<le> 2 ^ 70 \<Longrightarrow> fadd (Fin x) (Fin y) = Fin (d64 (x + y))"
  by (simp only: fadd.simps fl_bounded)

lemma fmul_bounded:
  "- (2 ^ 70) \<le> x * y \<Longrightarrow> x * y \<le> 2 ^ 70 \<Longrightarrow> fmul (Fin x) (Fin y) = Fin (d64 (x * y))"
  by (simp only: fmul.simps fl_bounded)

lemma WEIGHTS_values:
  "map snd WEIGHTS =
     [Fin (1 / 4),
      Fin (3602879701896397 / 18014398509481984),
      Fin (3602879701896397 / 18014398509481984),
      Fin (5404319552844595 / 36028797018963968),
      Fin (3602879701896397 / 18014398509481984)]"
  by (simp add: WEIGHTS_def float_lit_values)

section \<open>Compensated summation\<close>

text \<open>
  One step of Neumaier's summation on two positive doubles recovers the rounding error of
  the addition exactly, so the compensated sum of five doubles between \<open>1 / 8\<close> and
  \<open>5 / 2\<close> is their exact sum, rounded once.
\<close>

lemma pow2_values:
  "(2::rat) powi (- 3) = 1 / 8" "(2::rat) powi (- 2) = 1 / 4"
  by (simp_all add: power_int_minus)

lemma pow2_double: "2 * (2::rat) powi k = 2 powi (k + 1)"
proof -
  have "(2::rat) powi (k + 1) = 2 powi k * 2 powi 1" by (rule power_int_add) simp
  then show ?thesis by simp
qed

lemma d64_64: "d64 64 = 64"
  by code_simp

lemma two_sum_exact:
  assumes ra: "d64 a = a" and rb: "d64 b = b" and b: "1 / 8 \<le> b" and ba: "b \<le> a"
    and ab: "a + b \<le> 64"
  shows "d64 (a - d64 (a + b)) = a - d64 (a + b)"
    and "d64 (a - d64 (a + b) + b) = a + b - d64 (a + b)"
    and "on_grid (- 55) (a + b - d64 (a + b))"
    and "\<bar>a + b - d64 (a + b)\<bar> \<le> 1 / 2 ^ 47"
    and "1 / 8 \<le> d64 (a + b)"
proof -
  define t where "t = d64 (a + b)"
  define k where "k = ilog2 a"
  have apos: "0 < a" and bpos: "0 < b" and abpos: "0 < a + b" using b ba by simp_all
  have k1: "2 powi k \<le> a" and k2: "a < 2 powi (k + 1)"
    using ilog2_bounds [OF apos] by (simp_all add: k_def)
  have "2 powi (- 3) \<le> a" using b ba by (simp add: pow2_values)
  then have k3: "- 3 \<le> k" unfolding k_def by (rule ilog2_ge [OF apos])
  have ga: "on_grid (k - 52) a"
    using d64_on_grid_pos [OF apos k1] by (simp add: ra)
  have "2 powi k \<le> a + b" using k1 bpos by simp
  then have gt: "on_grid (k - 52) t"
    unfolding t_def by (rule d64_on_grid_pos [OF abpos])
  have "d64 a \<le> d64 (a + b)" using bpos by (intro d64_mono) simp
  then have at: "a \<le> t" by (simp add: ra t_def)
  have "on_grid (k - 52 + 1) (2 * a)" using ga by (rule on_grid_double)
  moreover have "\<bar>2 * a\<bar> < 2 powi (k - 52 + 1 + 53)"
  proof -
    have "2 * a < 2 * 2 powi (k + 1)" using k2 by simp
    also have "\<dots> = 2 powi (k + 1 + 1)" by (rule pow2_double)
    finally show ?thesis using apos by (simp add: add.commute)
  qed
  ultimately have r2: "d64 (2 * a) = 2 * a" using k3 by (intro d64_exact [of "k - 52 + 1"]) simp_all
  have "d64 (a + b) \<le> d64 (2 * a)" using ba by (intro d64_mono) simp
  then have t2: "t \<le> 2 * a" by (simp add: r2 t_def)
  have "\<bar>a - t\<bar> < 2 powi (k - 52 + 53)"
    using at t2 k2 by (simp add: add.commute)
  moreover have "on_grid (k - 52) (a - t)" using ga gt by (rule on_grid_diff)
  ultimately have "d64 (a - t) = a - t" using k3 by (intro d64_exact [of "k - 52"]) simp_all
  then show first: "d64 (a - d64 (a + b)) = a - d64 (a + b)" by (simp add: t_def)
  have "2 powi (- 3) \<le> b" using b by (simp add: pow2_values)
  then have "on_grid (- 3 - 52) (d64 b)" by (rule d64_on_grid_pos [OF bpos])
  then have gb: "on_grid (- 55) b" by (simp add: rb)
  have ga': "on_grid (- 55) a" using ga k3 by (simp add: on_grid_coarse [of "k - 52" a "- 55"])
  have gt': "on_grid (- 55) t" using gt k3 by (simp add: on_grid_coarse [of "k - 52" t "- 55"])
  have ge: "on_grid (- 55) (a + b - t)"
    using ga' gb gt' by (intro on_grid_diff on_grid_add)
  then show "on_grid (- 55) (a + b - d64 (a + b))" by (simp add: t_def)
  have "2 powi (- 3) \<le> a + b" using b apos by (simp add: pow2_values)
  then have "- 3 \<le> ilog2 (a + b)" by (rule ilog2_ge [OF abpos])
  then have "\<bar>d64 (a + b) - (a + b)\<bar> \<le> (a + b) / 2 ^ 53"
    by (intro d64_error_pos [OF abpos]) simp
  moreover have "(a + b) / 2 ^ 53 \<le> 64 / 2 ^ 53" using ab by (simp add: divide_right_mono)
  moreover have "(64::rat) / 2 ^ 53 = 1 / 2 ^ 47" by simp
  ultimately have e: "\<bar>a + b - t\<bar> \<le> 1 / 2 ^ 47" unfolding t_def by linarith
  then show "\<bar>a + b - d64 (a + b)\<bar> \<le> 1 / 2 ^ 47" by (simp add: t_def)
  have "(1::rat) / 2 ^ 47 < 2 powi (- 55 + 53)" by (simp add: power_int_minus)
  with e have "\<bar>a + b - t\<bar> < 2 powi (- 55 + 53)" by linarith
  with ge have "d64 (a + b - t) = a + b - t" by (intro d64_exact [of "- 55"]) simp_all
  moreover have "a - t + b = a + b - t" by simp
  ultimately have "d64 (a - t + b) = a + b - t" by (simp only:)
  then show "d64 (a - d64 (a + b) + b) = a + b - d64 (a + b)" unfolding t_def .
  show "1 / 8 \<le> d64 (a + b)" using at b ba by (simp add: t_def)
qed

lemma neumaier_step_exact:
  assumes rf: "d64 f = f" and rx: "d64 x = x" and f: "1 / 8 \<le> f" "f \<le> 16"
    and x: "1 / 8 \<le> x" "x \<le> 16" and gc: "on_grid (- 55) c" and c: "\<bar>c\<bar> \<le> 1 / 2 ^ 40"
  shows "neumaier_step (Fin f, Fin c) (Fin x) =
           (Fin (d64 (f + x)), Fin (c + (f + x - d64 (f + x))))"
    and "on_grid (- 55) (c + (f + x - d64 (f + x)))"
    and "\<bar>f + x - d64 (f + x)\<bar> \<le> 1 / 2 ^ 47"
    and "1 / 8 \<le> d64 (f + x)"
    and "d64 (d64 (f + x)) = d64 (f + x)"
proof -
  define t where "t = d64 (f + x)"
  define e where "e = f + x - t"
  have sum: "f + x \<le> 64" and sum': "x + f \<le> 64" using f x by simp_all
  have ex: "d64 (f - t) = f - t" "d64 (f - t + x) = e" if "x \<le> f"
    using two_sum_exact(1,2) [OF rf rx x(1) that sum] by (simp_all add: t_def e_def)
  have ex': "d64 (x - t) = x - t" "d64 (x - t + f) = e" if "\<not> x \<le> f"
  proof -
    from that have "f \<le> x" by simp
    from two_sum_exact(1,2) [OF rx rf f(1) this sum']
    show "d64 (x - t) = x - t" "d64 (x - t + f) = e"
      by (simp_all add: t_def e_def add.commute)
  qed
  have props: "on_grid (- 55) e \<and> \<bar>e\<bar> \<le> 1 / 2 ^ 47 \<and> 1 / 8 \<le> t"
  proof (cases "x \<le> f")
    case True
    from two_sum_exact(3,4,5) [OF rf rx x(1) True sum] show ?thesis
      by (simp add: t_def e_def)
  next
    case False
    then have "f \<le> x" by simp
    from two_sum_exact(3,4,5) [OF rx rf f(1) this sum'] show ?thesis
      by (simp add: t_def e_def add.commute)
  qed
  then have ge: "on_grid (- 55) e" and eb: "\<bar>e\<bar> \<le> 1 / 2 ^ 47" and tl: "1 / 8 \<le> t"
    by simp_all
  have "d64 (f + x) \<le> d64 64" using sum by (rule d64_mono)
  then have th: "t \<le> 64" by (simp add: t_def d64_64)
  have big: "(64::rat) \<le> 2 ^ 70" "- (2 ^ 70) \<le> (- 64::rat)" by simp_all
  have A: "fadd (Fin f) (Fin x) = Fin t"
    unfolding t_def using f x big by (intro fadd_bounded) linarith+
  have B1: "fadd (fsub (Fin f) (Fin t)) (Fin x) = Fin e" if "x \<le> f"
  proof -
    have "fadd (Fin f) (Fin (- t)) = Fin (d64 (f + - t))"
      using f tl th big by (intro fadd_bounded) linarith+
    then have "fsub (Fin f) (Fin t) = Fin (f - t)"
      using ex(1) [OF that] by (simp add: fsub_def)
    moreover have "fadd (Fin (f - t)) (Fin x) = Fin (d64 (f - t + x))"
      using f x tl th big by (intro fadd_bounded) linarith+
    ultimately show ?thesis using ex(2) [OF that] by simp
  qed
  have B2: "fadd (fsub (Fin x) (Fin t)) (Fin f) = Fin e" if "\<not> x \<le> f"
  proof -
    have "fadd (Fin x) (Fin (- t)) = Fin (d64 (x + - t))"
      using x tl th big by (intro fadd_bounded) linarith+
    then have "fsub (Fin x) (Fin t) = Fin (x - t)"
      using ex'(1) [OF that] by (simp add: fsub_def)
    moreover have "fadd (Fin (x - t)) (Fin f) = Fin (d64 (x - t + f))"
      using f x tl th big by (intro fadd_bounded) linarith+
    ultimately show ?thesis using ex'(2) [OF that] by simp
  qed
  have gce: "on_grid (- 55) (c + e)" using gc ge by (rule on_grid_add)
  have "(1::rat) / 2 ^ 40 + 1 / 2 ^ 47 < 2 powi (- 55 + 53)" by (simp add: power_int_minus)
  then have small: "\<bar>c + e\<bar> < 2 powi (- 55 + 53)" using c eb by linarith
  have "d64 (c + e) = c + e" using gce small by (intro d64_exact [of "- 55"]) simp_all
  moreover have "\<bar>c + e\<bar> < 1 / 4" using small by (simp add: pow2_values)
  then have "fadd (Fin c) (Fin e) = Fin (d64 (c + e))"
    using big by (intro fadd_bounded) linarith+
  ultimately have C: "fadd (Fin c) (Fin e) = Fin (c + e)" by simp
  have D: "fle (fabs (Fin x)) (fabs (Fin f)) = (x \<le> f)" using f x by simp
  show "neumaier_step (Fin f, Fin c) (Fin x) =
           (Fin (d64 (f + x)), Fin (c + (f + x - d64 (f + x))))"
    unfolding neumaier_step_def Let_def fst_conv snd_conv A D
    using B1 B2 C by (simp add: t_def [symmetric] e_def [symmetric])
  show "on_grid (- 55) (c + (f + x - d64 (f + x)))" using gce by (simp add: e_def t_def)
  show "\<bar>f + x - d64 (f + x)\<bar> \<le> 1 / 2 ^ 47" using eb by (simp add: e_def t_def)
  show "1 / 8 \<le> d64 (f + x)" using tl by (simp add: t_def)
  show "d64 (d64 (f + x)) = d64 (f + x)" by (rule d64_idem)
qed

lemma neumaier_sum5:
  assumes r: "d64 p1 = p1" "d64 p2 = p2" "d64 p3 = p3" "d64 p4 = p4" "d64 p5 = p5"
    and l: "1 / 8 \<le> p1" "1 / 8 \<le> p2" "1 / 8 \<le> p3" "1 / 8 \<le> p4" "1 / 8 \<le> p5"
    and h: "p1 \<le> 5 / 2" "p2 \<le> 5 / 2" "p3 \<le> 5 / 2" "p4 \<le> 5 / 2" "p5 \<le> 5 / 2"
  shows "py_sum From_3_12 [Fin p1, Fin p2, Fin p3, Fin p4, Fin p5] =
           Fin (d64 (p1 + p2 + p3 + p4 + p5))"
proof -
  have h16: "p1 \<le> 16" "p2 \<le> 16" "p3 \<le> 16" "p4 \<le> 16" "p5 \<le> 16"
    using h by simp_all
  have "fadd (Fin 0) (Fin p1) = Fin (d64 (0 + p1))"
    using l(1) h(1) by (intro fadd_bounded) simp_all
  then have s1: "fadd (Fin 0) (Fin p1) = Fin p1" by (simp add: r)
  define f2 where "f2 = d64 (p1 + p2)"
  define c2 where "c2 = 0 + (p1 + p2 - f2)"
  note st2 = neumaier_step_exact [OF r(1) r(2) l(1) h16(1) l(2) h16(2) on_grid_zero,
      folded f2_def, folded c2_def]
  have z: "\<bar>0::rat\<bar> \<le> 1 / 2 ^ 40" by simp
  have s2: "neumaier_step (Fin p1, Fin 0) (Fin p2) = (Fin f2, Fin c2)"
    and g2: "on_grid (- 55) c2" and rf2: "d64 f2 = f2" and lf2: "1 / 8 \<le> f2"
    using st2(1,2,5,4) [OF z] by simp_all
  have e2: "\<bar>c2\<bar> \<le> 1 / 140737488355328"
    using st2(3) [OF z] by (simp add: c2_def)
  have hf2: "f2 \<le> 16" using e2 h(1,2) unfolding c2_def by linarith
  have cb2: "\<bar>c2\<bar> \<le> 1 / 2 ^ 40" using e2 by simp
  define f3 where "f3 = d64 (f2 + p3)"
  define c3 where "c3 = c2 + (f2 + p3 - f3)"
  note st3 = neumaier_step_exact [OF rf2 r(3) lf2 hf2 l(3) h16(3) g2 cb2,
      folded f3_def, folded c3_def]
  have s3: "neumaier_step (Fin f2, Fin c2) (Fin p3) = (Fin f3, Fin c3)"
    and g3: "on_grid (- 55) c3" and rf3: "d64 f3 = f3" and lf3: "1 / 8 \<le> f3"
    using st3(1,2,5,4) by simp_all
  have e3: "\<bar>c3\<bar> \<le> 2 / 140737488355328"
  proof -
    have "\<bar>f2 + p3 - f3\<bar> \<le> 1 / 140737488355328" using st3(3) by simp
    then show ?thesis using e2 unfolding c3_def by linarith
  qed
  have sum3: "f3 + c3 = p1 + p2 + p3" by (simp add: c3_def c2_def)
  have hf3: "f3 \<le> 16" using e3 h(1,2,3) sum3 by linarith
  have cb3: "\<bar>c3\<bar> \<le> 1 / 2 ^ 40" using e3 by simp
  define f4 where "f4 = d64 (f3 + p4)"
  define c4 where "c4 = c3 + (f3 + p4 - f4)"
  note st4 = neumaier_step_exact [OF rf3 r(4) lf3 hf3 l(4) h16(4) g3 cb3,
      folded f4_def, folded c4_def]
  have s4: "neumaier_step (Fin f3, Fin c3) (Fin p4) = (Fin f4, Fin c4)"
    and g4: "on_grid (- 55) c4" and rf4: "d64 f4 = f4" and lf4: "1 / 8 \<le> f4"
    using st4(1,2,5,4) by simp_all
  have e4: "\<bar>c4\<bar> \<le> 3 / 140737488355328"
  proof -
    have "\<bar>f3 + p4 - f4\<bar> \<le> 1 / 140737488355328" using st4(3) by simp
    then show ?thesis using e3 unfolding c4_def by linarith
  qed
  have sum4: "f4 + c4 = p1 + p2 + p3 + p4" using sum3 by (simp add: c4_def)
  have hf4: "f4 \<le> 16" using e4 h(1,2,3,4) sum4 by linarith
  have cb4: "\<bar>c4\<bar> \<le> 1 / 2 ^ 40" using e4 by simp
  define f5 where "f5 = d64 (f4 + p5)"
  define c5 where "c5 = c4 + (f4 + p5 - f5)"
  note st5 = neumaier_step_exact [OF rf4 r(5) lf4 hf4 l(5) h16(5) g4 cb4,
      folded f5_def, folded c5_def]
  have s5: "neumaier_step (Fin f4, Fin c4) (Fin p5) = (Fin f5, Fin c5)"
    and rf5: "d64 f5 = f5" and lf5: "1 / 8 \<le> f5"
    using st5(1,5,4) by simp_all
  have e5: "\<bar>c5\<bar> \<le> 4 / 140737488355328"
  proof -
    have "\<bar>f4 + p5 - f5\<bar> \<le> 1 / 140737488355328" using st5(3) by simp
    then show ?thesis using e4 unfolding c5_def by linarith
  qed
  have sum5: "f5 + c5 = p1 + p2 + p3 + p4 + p5" using sum4 by (simp add: c5_def)
  have hf5: "f5 \<le> 16" using e5 h sum5 by linarith
  have fold: "foldl neumaier_step (Fin p1, Fin 0) [Fin p2, Fin p3, Fin p4, Fin p5] =
      (Fin f5, Fin c5)"
    by (simp only: foldl.simps s2 s3 s4 s5)
  have last: "(if finite_nonzero (Fin c5) then fadd (Fin f5) (Fin c5) else Fin f5) =
      Fin (d64 (f5 + c5))"
  proof (cases "c5 = 0")
    case True
    then show ?thesis by (simp add: rf5)
  next
    case False
    have "fadd (Fin f5) (Fin c5) = Fin (d64 (f5 + c5))"
      using lf5 hf5 e5 by (intro fadd_bounded) simp_all
    with False show ?thesis by simp
  qed
  show ?thesis
    unfolding py_sum_def list.case cpython.case s1 fold Let_def fst_conv snd_conv last sum5 ..
qed

section \<open>The weight table\<close>

lemma weights_sum_until_3_11: "py_sum Until_3_11 (map snd WEIGHTS) = Fin 1"
  by (simp add: py_sum_def WEIGHTS_values fl_bounded d64_literals d64_chain d64_zero)

lemma weights_sum_from_3_12: "py_sum From_3_12 (map snd WEIGHTS) = Fin 1"
  unfolding WEIGHTS_values
  by (subst neumaier_sum5) (simp_all add: d64_literals d64_chain)

text \<open>
  C7. The five weights of the table \<open>WEIGHTS\<close>, added as floats by \<open>sum\<close> in the order of the
  table, give the float \<open>1.0\<close> exactly, with the plain summation of CPython up to 3.11 and
  with the compensated summation of CPython from 3.12 on.
\<close>

theorem weights_sum_one: "py_sum v (map snd WEIGHTS) = Fin 1"
  by (cases v) (simp_all only: weights_sum_until_3_11 weights_sum_from_3_12)

section \<open>Threat levels\<close>

lemma threat_level_Fin:
  "threat_level_of_score (Fin x) =
     (if 1 \<le> x \<and> x \<le> 2 then ''LOW''
      else if d64 (21 / 10) \<le> x \<and> x \<le> 4 then ''MODERATE''
      else if d64 (41 / 10) \<le> x \<and> x \<le> 6 then ''ELEVATED''
      else if d64 (61 / 10) \<le> x \<and> x \<le> 8 then ''HIGH''
      else if d64 (81 / 10) \<le> x \<and> x \<le> 10 then ''EXTREME''
      else ''UNDEFINED'')"
  by (simp add: threat_level_of_score_def float_lit_values d64_literals)

lemma threat_level_not_finite:
  "threat_level_of_score PInf = ''UNDEFINED''"
  "threat_level_of_score NInf = ''UNDEFINED''"
  "threat_level_of_score NaN = ''UNDEFINED''"
  by (simp_all add: threat_level_of_score_def float_lit_values)

lemma literal_order:
  "(2::rat) < d64 (21 / 10)" "d64 (21 / 10) < 4"
  "(4::rat) < d64 (41 / 10)" "d64 (41 / 10) < 6"
  "(6::rat) < d64 (61 / 10)" "d64 (61 / 10) < 8"
  "(8::rat) < d64 (81 / 10)" "d64 (81 / 10) < 10"
  by (simp_all add: d64_literals)

text \<open>
  C1. A score is mapped by the closed bands of the source, whose decimal bounds denote the
  doubles nearest to them: from 1.0 to 2.0 \<open>LOW\<close>, from 2.1 to 4.0 \<open>MODERATE\<close>, from 4.1 to
  6.0 \<open>ELEVATED\<close>, from 6.1 to 8.0 \<open>HIGH\<close>, from 8.1 to 10.0 \<open>EXTREME\<close>. Every other score
  is \<open>UNDEFINED\<close>: a score below 1.0 or above 10.0, a score strictly inside one of the four
  gaps (2.05 is one), an infinity and a NaN.
\<close>

theorem threat_level_bands:
  "((threat_level_of_score (Fin x) = ''LOW'') = (1 \<le> x \<and> x \<le> 2)) \<and>
   ((threat_level_of_score (Fin x) = ''MODERATE'') = (d64 (21 / 10) \<le> x \<and> x \<le> 4)) \<and>
   ((threat_level_of_score (Fin x) = ''ELEVATED'') = (d64 (41 / 10) \<le> x \<and> x \<le> 6)) \<and>
   ((threat_level_of_score (Fin x) = ''HIGH'') = (d64 (61 / 10) \<le> x \<and> x \<le> 8)) \<and>
   ((threat_level_of_score (Fin x) = ''EXTREME'') = (d64 (81 / 10) \<le> x \<and> x \<le> 10)) \<and>
   ((threat_level_of_score (Fin x) = ''UNDEFINED'') =
      (x < 1 \<or> (2 < x \<and> x < d64 (21 / 10)) \<or> (4 < x \<and> x < d64 (41 / 10)) \<or>
       (6 < x \<and> x < d64 (61 / 10)) \<or> (8 < x \<and> x < d64 (81 / 10)) \<or> 10 < x)) \<and>
   threat_level_of_score PInf = ''UNDEFINED'' \<and>
   threat_level_of_score NInf = ''UNDEFINED'' \<and>
   threat_level_of_score NaN = ''UNDEFINED'' \<and>
   threat_level_of_score (float_lit (205 / 100)) = ''UNDEFINED'' \<and>
   threat_level_of_score (float_lit 2) = ''LOW'' \<and>
   threat_level_of_score (float_lit (21 / 10)) = ''MODERATE''"
proof -
  note lo = literal_order
  have low: "(threat_level_of_score (Fin x) = ''LOW'') = (1 \<le> x \<and> x \<le> 2)"
    by (simp add: threat_level_Fin)
  have moderate:
    "(threat_level_of_score (Fin x) = ''MODERATE'') = (d64 (21 / 10) \<le> x \<and> x \<le> 4)"
    using lo by (auto simp: threat_level_Fin)
  have elevated:
    "(threat_level_of_score (Fin x) = ''ELEVATED'') = (d64 (41 / 10) \<le> x \<and> x \<le> 6)"
    using lo by (auto simp: threat_level_Fin)
  have high: "(threat_level_of_score (Fin x) = ''HIGH'') = (d64 (61 / 10) \<le> x \<and> x \<le> 8)"
    using lo by (auto simp: threat_level_Fin)
  have extreme:
    "(threat_level_of_score (Fin x) = ''EXTREME'') = (d64 (81 / 10) \<le> x \<and> x \<le> 10)"
    using lo by (auto simp: threat_level_Fin)
  have undefined:
    "(threat_level_of_score (Fin x) = ''UNDEFINED'') =
      (x < 1 \<or> (2 < x \<and> x < d64 (21 / 10)) \<or> (4 < x \<and> x < d64 (41 / 10)) \<or>
       (6 < x \<and> x < d64 (61 / 10)) \<or> (8 < x \<and> x < d64 (81 / 10)) \<or> 10 < x)"
    using lo by (auto simp: threat_level_Fin)
  have ex: "threat_level_of_score (float_lit (205 / 100)) = ''UNDEFINED''"
    "threat_level_of_score (float_lit 2) = ''LOW''"
    "threat_level_of_score (float_lit (21 / 10)) = ''MODERATE''"
    by (simp_all add: float_lit_values threat_level_Fin d64_literals)
  show ?thesis
    using low moderate elevated high extreme undefined ex threat_level_not_finite
    by blast
qed

lemma threat_level_in_levels: "threat_level_of_score s \<in> set threat_levels"
  by (simp add: threat_level_of_score_def threat_levels_def)

lemma descriptions_hit:
  "level \<in> set threat_levels \<Longrightarrow> \<exists>d. map_of descriptions level = Some d \<and> d \<noteq> ''N/A''"
  by (auto simp: threat_levels_def descriptions_def)

lemma colors_hit:
  "level \<in> set threat_levels \<Longrightarrow> \<exists>k. map_of colors_map level = Some k"
  by (auto simp: threat_levels_def colors_map_def)

section \<open>Category scores\<close>

lemma bindE_Inr: "bindE (Inr v) f = f v"
  by (simp add: bindE_def)

lemma bindE_Inl: "bindE (Inl e) f = Inl e"
  by (simp add: bindE_def)

lemma length_dataclass_fields:
  "length (dataclass_fields m) = 4 \<or> length (dataclass_fields m) = 6"
  by (cases m) simp_all

lemma sum_list_in_range:
  "list_all in_range xs \<Longrightarrow> int (length xs) \<le> sum_list xs \<and> sum_list xs \<le> 10 * int (length xs)"
  by (induction xs) (auto simp: in_range_def)

lemma sum_list_int64:
  "list_all fits_int64 xs \<Longrightarrow>
   - (2 ^ 63) * int (length xs) \<le> sum_list xs \<and> sum_list xs \<le> 2 ^ 63 * int (length xs)"
  by (induction xs) (auto simp: fits_int64_def)

lemma arithmetic_mean_in_range:
  assumes "xs \<noteq> []" and "list_all in_range xs"
  shows "1 \<le> arithmetic_mean xs" and "arithmetic_mean xs \<le> 10"
proof -
  define n :: rat where "n = of_int (int (length xs))"
  define s :: rat where "s = of_int (sum_list xs)"
  have npos: "0 < n" using assms(1) by (simp add: n_def)
  have "(of_int (int (length xs)) :: rat) \<le> of_int (sum_list xs)"
    and "(of_int (sum_list xs) :: rat) \<le> of_int (10 * int (length xs))"
    using sum_list_in_range [OF assms(2)] by (simp_all only: of_int_le_iff)
  then have "n \<le> s" and "s \<le> 10 * n" by (simp_all add: n_def s_def)
  then have "1 \<le> s / n" and "s / n \<le> 10" using npos by (simp_all add: field_simps)
  then show "1 \<le> arithmetic_mean xs" and "arithmetic_mean xs \<le> 10"
    by (simp_all add: arithmetic_mean_def n_def s_def)
qed

lemma arithmetic_mean_int64:
  assumes "xs \<noteq> []" and "list_all fits_int64 xs"
  shows "- (2 ^ 63) \<le> arithmetic_mean xs" and "arithmetic_mean xs \<le> 2 ^ 63"
proof -
  define n :: rat where "n = of_int (int (length xs))"
  define s :: rat where "s = of_int (sum_list xs)"
  have npos: "0 < n" using assms(1) by (simp add: n_def)
  have "(of_int (- (2 ^ 63) * int (length xs)) :: rat) \<le> of_int (sum_list xs)"
    and "(of_int (sum_list xs) :: rat) \<le> of_int (2 ^ 63 * int (length xs))"
    using sum_list_int64 [OF assms(2)] by (simp_all only: of_int_le_iff)
  then have "- (2 ^ 63) * n \<le> s" and "s \<le> 2 ^ 63 * n" by (simp_all add: n_def s_def)
  then have "- (2 ^ 63) \<le> s / n" and "s / n \<le> 2 ^ 63" using npos by (simp_all add: field_simps)
  then show "- (2 ^ 63) \<le> arithmetic_mean xs" and "arithmetic_mean xs \<le> 2 ^ 63"
    by (simp_all add: arithmetic_mean_def n_def s_def)
qed

lemma category_score_bounded:
  assumes "- (2 ^ 70) \<le> arithmetic_mean (dataclass_fields m)"
    and "arithmetic_mean (dataclass_fields m) \<le> 2 ^ 70"
  shows "calculate_category_score (Some m) = Inr (Fin (d64 (arithmetic_mean (dataclass_fields m))))"
proof -
  have n: "int (length (dataclass_fields m)) \<noteq> 0"
    using length_dataclass_fields [of m] by auto
  have "fl (of_int (sum_list (dataclass_fields m)) / of_int (int (length (dataclass_fields m))))
      = Fin (d64 (arithmetic_mean (dataclass_fields m)))"
    using fl_bounded [OF assms] by (simp only: arithmetic_mean_def)
  then show ?thesis
    using n by (simp add: calculate_category_score_def int_truediv_def Let_def)
qed

lemma category_score_int64:
  assumes "list_all fits_int64 (dataclass_fields m)"
  shows "calculate_category_score (Some m) = Inr (Fin (d64 (arithmetic_mean (dataclass_fields m))))"
proof -
  have ne: "dataclass_fields m \<noteq> []" using length_dataclass_fields [of m] by auto
  have "- (2 ^ 63) \<le> arithmetic_mean (dataclass_fields m)"
    and "arithmetic_mean (dataclass_fields m) \<le> 2 ^ 63"
    using arithmetic_mean_int64 [OF ne assms] by simp_all
  then have "- (2 ^ 70) \<le> arithmetic_mean (dataclass_fields m)"
    and "arithmetic_mean (dataclass_fields m) \<le> 2 ^ 70" by simp_all
  then show ?thesis by (rule category_score_bounded)
qed

lemma in_range_fits_int64: "in_range v \<Longrightarrow> fits_int64 v"
  by (simp add: in_range_def fits_int64_def)

lemma list_all_in_range_int64: "list_all in_range xs \<Longrightarrow> list_all fits_int64 xs"
  by (induction xs) (simp_all add: in_range_fits_int64)

lemma category_score_in_range:
  assumes "list_all in_range (dataclass_fields m)"
  shows "\<exists>x. calculate_category_score (Some m) = Inr (Fin x) \<and> 1 \<le> x \<and> x \<le> 10"
proof -
  have ne: "dataclass_fields m \<noteq> []" using length_dataclass_fields [of m] by auto
  define mu where "mu = arithmetic_mean (dataclass_fields m)"
  have mu: "1 \<le> mu" "mu \<le> 10"
    using arithmetic_mean_in_range [OF ne assms] by (simp_all add: mu_def)
  have "d64 1 \<le> d64 mu" and "d64 mu \<le> d64 10"
    using mu by (simp_all add: d64_mono)
  then have "1 \<le> d64 mu" and "d64 mu \<le> 10" by (simp_all only: d64_literals)
  moreover have "calculate_category_score (Some m) = Inr (Fin (d64 mu))"
    unfolding mu_def using assms by (intro category_score_int64 list_all_in_range_int64)
  ultimately show ?thesis by blast
qed

lemma ilog2_eighth: "ilog2 (1 / 8) = - 3"
  by code_simp

lemma d64_error:
  assumes "x = 0 \<or> 1 / 8 \<le> \<bar>x\<bar>"
  shows "\<bar>d64 x - x\<bar> \<le> \<bar>x\<bar> / 2 ^ 53"
proof (cases "x = 0")
  case True
  then show ?thesis by (simp add: d64_zero)
next
  case False
  then have big: "1 / 8 \<le> \<bar>x\<bar>" using assms by simp
  then have pos: "0 < \<bar>x\<bar>" by simp
  have "ilog2 (1 / 8) \<le> ilog2 \<bar>x\<bar>" using big by (intro ilog2_mono) simp_all
  then have normal: "- 1022 \<le> ilog2 \<bar>x\<bar>" by (simp add: ilog2_eighth)
  have e: "\<bar>d64 \<bar>x\<bar> - \<bar>x\<bar>\<bar> \<le> \<bar>x\<bar> / 2 ^ 53"
    using pos normal by (rule d64_error_pos)
  show ?thesis
  proof (cases "0 < x")
    case True
    then show ?thesis using e by simp
  next
    case False
    then have neg: "\<bar>x\<bar> = - x" by simp
    have "\<bar>d64 x - x\<bar> = \<bar>d64 (- x) - (- x)\<bar>"
      by (simp add: d64_uminus)
    then show ?thesis using e by (simp only: neg)
  qed
qed

lemma arithmetic_mean_zero_or_big:
  "arithmetic_mean (dataclass_fields m) = 0 \<or> 1 / 8 \<le> \<bar>arithmetic_mean (dataclass_fields m)\<bar>"
proof (cases "sum_list (dataclass_fields m) = 0")
  case True
  then show ?thesis by (simp add: arithmetic_mean_def)
next
  case False
  define s where "s = sum_list (dataclass_fields m)"
  define n where "n = int (length (dataclass_fields m))"
  have n: "n = 4 \<or> n = 6" using length_dataclass_fields [of m] by (auto simp: n_def)
  have "1 \<le> \<bar>s\<bar>" using False by (simp add: s_def)
  then have "(1::rat) \<le> \<bar>of_int s\<bar>" by (metis of_int_1_le_iff of_int_abs)
  then have "1 / 8 \<le> \<bar>(of_int s :: rat) / of_int n\<bar>"
    using n by (auto simp: abs_divide)
  then show ?thesis by (simp add: arithmetic_mean_def s_def n_def)
qed

lemma quarters_exact: "list_all (\<lambda>k. d64 (of_int k / 4) = of_int k / 4) [4..40]"
  by code_simp

lemma units_exact: "list_all (\<lambda>k. d64 (of_int k) = of_int k) [1..10]"
  by code_simp

lemma sum_list_all_equal: "list_all (\<lambda>x. x = v) xs \<Longrightarrow> sum_list xs = int (length xs) * v"
  by (induction xs) (simp_all add: algebra_simps)

lemma arithmetic_mean_all_equal:
  assumes "xs \<noteq> []" and "list_all (\<lambda>x. x = v) xs"
  shows "arithmetic_mean xs = of_int v"
  using assms by (simp add: arithmetic_mean_def sum_list_all_equal)

lemma d64_mean_exact:
  assumes "list_all in_range (dataclass_fields m)"
    and "length (dataclass_fields m) = 4 \<or> (\<exists>v. list_all (\<lambda>x. x = v) (dataclass_fields m))"
  shows "d64 (arithmetic_mean (dataclass_fields m)) = arithmetic_mean (dataclass_fields m)"
proof -
  have ne: "dataclass_fields m \<noteq> []" using length_dataclass_fields [of m] by auto
  from assms(2) show ?thesis
  proof
    assume four: "length (dataclass_fields m) = 4"
    define s where "s = sum_list (dataclass_fields m)"
    have "4 \<le> s" and "s \<le> 40"
      using sum_list_in_range [OF assms(1)] four by (simp_all add: s_def)
    then have "s \<in> set [4..40]" unfolding set_upto by simp
    then have "d64 (of_int s / 4) = of_int s / 4"
      using quarters_exact by (simp only: list_all_iff)
    then show ?thesis by (simp add: arithmetic_mean_def four s_def)
  next
    assume "\<exists>v. list_all (\<lambda>x. x = v) (dataclass_fields m)"
    then obtain v where v: "list_all (\<lambda>x. x = v) (dataclass_fields m)" by blast
    obtain x xs where xs: "dataclass_fields m = x # xs" using ne by (cases "dataclass_fields m") auto
    have "x = v" using v xs by simp
    moreover have "in_range x" using assms(1) xs by simp
    ultimately have "v \<in> set [1..10]" unfolding set_upto by (simp add: in_range_def)
    then have "d64 (of_int v) = of_int v"
      using units_exact by (simp only: list_all_iff)
    then show ?thesis by (simp only: arithmetic_mean_all_equal [OF ne v])
  qed
qed

text \<open>
  C8. The score of a category is the mean of its indicators, computed as one float
  division: the double nearest to the exact mean, within a relative error of
  \<open>2 powi (-53)\<close> of it for all indicators a database row can hold, and the exact mean when
  the indicators are in range and the category has four of them or they are all equal
  (all 7 gives 7.0, all 1 gives 1.0, all 10 gives 10.0). The falsy argument gives 0.0.
\<close>

theorem category_score_is_mean:
  "calculate_category_score None = Inr (Fin 0) \<and>
   (list_all fits_int64 (dataclass_fields m) \<longrightarrow>
      calculate_category_score (Some m) = Inr (Fin (d64 (arithmetic_mean (dataclass_fields m)))) \<and>
      \<bar>d64 (arithmetic_mean (dataclass_fields m)) - arithmetic_mean (dataclass_fields m)\<bar>
        \<le> \<bar>arithmetic_mean (dataclass_fields m)\<bar> / 2 ^ 53) \<and>
   (list_all in_range (dataclass_fields m) \<and>
    (length (dataclass_fields m) = 4 \<or> (\<exists>v. list_all (\<lambda>x. x = v) (dataclass_fields m))) \<longrightarrow>
      calculate_category_score (Some m) = Inr (Fin (arithmetic_mean (dataclass_fields m))))"
proof (intro conjI impI)
  show "calculate_category_score None = Inr (Fin 0)"
    by (simp add: calculate_category_score_def float_lit_values)
next
  assume "list_all fits_int64 (dataclass_fields m)"
  then show "calculate_category_score (Some m) = Inr (Fin (d64 (arithmetic_mean (dataclass_fields m))))"
    by (rule category_score_int64)
next
  show "\<bar>d64 (arithmetic_mean (dataclass_fields m)) - arithmetic_mean (dataclass_fields m)\<bar>
        \<le> \<bar>arithmetic_mean (dataclass_fields m)\<bar> / 2 ^ 53"
    using arithmetic_mean_zero_or_big by (rule d64_error)
next
  assume a: "list_all in_range (dataclass_fields m) \<and>
    (length (dataclass_fields m) = 4 \<or> (\<exists>v. list_all (\<lambda>x. x = v) (dataclass_fields m)))"
  then have "calculate_category_score (Some m) = Inr (Fin (d64 (arithmetic_mean (dataclass_fields m))))"
    by (intro category_score_int64 list_all_in_range_int64) simp
  moreover have "d64 (arithmetic_mean (dataclass_fields m)) = arithmetic_mean (dataclass_fields m)"
    using a by (intro d64_mean_exact) simp_all
  ultimately show "calculate_category_score (Some m) = Inr (Fin (arithmetic_mean (dataclass_fields m)))"
    by simp
qed

theorem category_score_is_mean_witness:
  "calculate_category_score None = Inr (Fin 0) \<and>
   calculate_category_score (Some (Political \<lparr>government_legitimacy = 7, political_violence = 7,
     institutional_strength = 7, leadership_stability = 7\<rparr>)) = Inr (Fin 7) \<and>
   calculate_category_score (Some (Security \<lparr>internal_conflict = 1, regional_security = 1,
     law_enforcement = 1, military_factors = 1\<rparr>)) = Inr (Fin 1) \<and>
   calculate_category_score (Some (Economic \<lparr>economic_performance = 10, fiscal_health = 10,
     trade_dependencies = 10, infrastructure_resilience = 10\<rparr>)) = Inr (Fin 10) \<and>
   calculate_category_score (Some (Illicit \<lparr>drug_trade = 7, human_trafficking = 7,
     arms_trafficking = 7, financial_crimes = 7, cybercrime_operations = 7,
     state_response_capacity = 7\<rparr>)) = Inr (Fin 7) \<and>
   calculate_category_score (Some (Social \<lparr>social_cohesion = 1, human_development = 2,
     demographic_pressures = 3, information_environment = 5\<rparr>)) = Inr (Fin (11 / 4))"
  using
    category_score_is_mean [of "Political \<lparr>government_legitimacy = 7, political_violence = 7,
      institutional_strength = 7, leadership_stability = 7\<rparr>"]
    category_score_is_mean [of "Security \<lparr>internal_conflict = 1, regional_security = 1,
      law_enforcement = 1, military_factors = 1\<rparr>"]
    category_score_is_mean [of "Economic \<lparr>economic_performance = 10, fiscal_health = 10,
      trade_dependencies = 10, infrastructure_resilience = 10\<rparr>"]
    category_score_is_mean [of "Illicit \<lparr>drug_trade = 7, human_trafficking = 7,
      arms_trafficking = 7, financial_crimes = 7, cybercrime_operations = 7,
      state_response_capacity = 7\<rparr>"]
    category_score_is_mean [of "Social \<lparr>social_cohesion = 1, human_development = 2,
      demographic_pressures = 3, information_environment = 5\<rparr>"]
  by (simp add: in_range_def arithmetic_mean_def)

section \<open>Threat score\<close>

lemma weight_values:
  "weight ''political_stability'' = Inr (Fin (1 / 4))"
  "weight ''security_environment'' = Inr (Fin (3602879701896397 / 18014398509481984))"
  "weight ''economic_stability'' = Inr (Fin (3602879701896397 / 18014398509481984))"
  "weight ''social_indicators'' = Inr (Fin (5404319552844595 / 36028797018963968))"
  "weight ''illicit_markets'' = Inr (Fin (3602879701896397 / 18014398509481984))"
  by (simp_all add: weight_def WEIGHTS_def float_lit_values)

lemma weighted_bounds:
  assumes "0 < w" and "w \<le> 1" and "1 \<le> x" and "x \<le> 10"
  shows "fmul (Fin x) (Fin w) = Fin (d64 (x * w))"
    and "d64 w \<le> d64 (x * w)"
    and "d64 (x * w) \<le> d64 (10 * w)"
proof -
  have lo: "w \<le> x * w" using assms(1,3) by simp
  have hi: "x * w \<le> 10 * w" using assms(1,4) by simp
  have nonneg: "0 \<le> x * w" using assms(1,3) by simp
  have small: "x * w \<le> 10 * 1" using assms by (intro mult_mono) simp_all
  have "- (2 ^ 70) \<le> (0::rat)" and "(10::rat) * 1 \<le> 2 ^ 70" by simp_all
  then have "- (2 ^ 70) \<le> x * w" and "x * w \<le> 2 ^ 70"
    using nonneg small by (blast intro: order_trans)+
  then show "fmul (Fin x) (Fin w) = Fin (d64 (x * w))" by (rule fmul_bounded)
  show "d64 w \<le> d64 (x * w)" using lo by (rule d64_mono)
  show "d64 (x * w) \<le> d64 (10 * w)" using hi by (rule d64_mono)
qed

lemma added_bounds:
  assumes "lo \<le> a" and "a \<le> hi" and "lo' \<le> b" and "b \<le> hi'"
    and "- (2 ^ 70) \<le> lo + lo'" and "hi + hi' \<le> 2 ^ 70"
  shows "fadd (Fin a) (Fin b) = Fin (d64 (a + b))"
    and "d64 (lo + lo') \<le> d64 (a + b)"
    and "d64 (a + b) \<le> d64 (hi + hi')"
proof -
  have lo: "lo + lo' \<le> a + b" using assms(1,3) by simp
  have hi: "a + b \<le> hi + hi'" using assms(2,4) by simp
  have "- (2 ^ 70) \<le> a + b" and "a + b \<le> 2 ^ 70"
    using lo hi assms(5,6) by (blast intro: order_trans)+
  then show "fadd (Fin a) (Fin b) = Fin (d64 (a + b))" by (rule fadd_bounded)
  show "d64 (lo + lo') \<le> d64 (a + b)" using lo by (rule d64_mono)
  show "d64 (a + b) \<le> d64 (hi + hi')" using hi by (rule d64_mono)
qed

text \<open>
  The plain summation of the five weighted scores: every partial sum lies between the
  partial sums of the least and of the greatest weighted scores, by monotonicity of the
  rounding.
\<close>

lemma plain_sum_bounds:
  assumes pl1: "1 / 4 \<le> p1" and ph1: "p1 \<le> 5 / 2"
    and pl2: "3602879701896397 / 18014398509481984 \<le> p2" and ph2: "p2 \<le> 2"
    and pl3: "3602879701896397 / 18014398509481984 \<le> p3" and ph3: "p3 \<le> 2"
    and pl4: "5404319552844595 / 36028797018963968 \<le> p4" and ph4: "p4 \<le> 3 / 2"
    and pl5: "3602879701896397 / 18014398509481984 \<le> p5" and ph5: "p5 \<le> 2"
  shows "\<exists>s. py_sum Until_3_11 [Fin p1, Fin p2, Fin p3, Fin p4, Fin p5] = Fin s \<and>
    1 \<le> s \<and> s \<le> 10"
proof -
  define s1 where "s1 = d64 (0 + p1)"
  have a1: "fadd (Fin 0) (Fin p1) = Fin s1"
    and sl1: "1 / 4 \<le> s1" and sh1: "s1 \<le> 5 / 2"
    using added_bounds [of "0" "0" "0" "1 / 4" p1 "5 / 2"] pl1 ph1
    by (simp_all add: s1_def d64_literals d64_chain)
  define s2 where "s2 = d64 (s1 + p2)"
  have a2: "fadd (Fin s1) (Fin p2) = Fin s2"
    and sl2: "8106479329266893 / 18014398509481984 \<le> s2" and sh2: "s2 \<le> 9 / 2"
    using added_bounds [of "1 / 4" "s1" "5 / 2" "3602879701896397 / 18014398509481984" p2 "2"] pl2 ph2 sl1 sh1
    by (simp_all add: s2_def d64_literals d64_chain)
  define s3 where "s3 = d64 (s2 + p3)"
  have a3: "fadd (Fin s2) (Fin p3) = Fin s3"
    and sl3: "5854679515581645 / 9007199254740992 \<le> s3" and sh3: "s3 \<le> 13 / 2"
    using added_bounds [of "8106479329266893 / 18014398509481984" "s2" "9 / 2" "3602879701896397 / 18014398509481984" p3 "2"] pl3 ph3 sl2 sh2
    by (simp_all add: s3_def d64_literals d64_chain)
  define s4 where "s4 = d64 (s3 + p4)"
  have a4: "fadd (Fin s3) (Fin p4) = Fin s4"
    and sl4: "3602879701896397 / 4503599627370496 \<le> s4" and sh4: "s4 \<le> 8"
    using added_bounds [of "5854679515581645 / 9007199254740992" "s3" "13 / 2" "5404319552844595 / 36028797018963968" p4 "3 / 2"] pl4 ph4 sl3 sh3
    by (simp_all add: s4_def d64_literals d64_chain)
  define s5 where "s5 = d64 (s4 + p5)"
  have a5: "fadd (Fin s4) (Fin p5) = Fin s5"
    and sl5: "1 \<le> s5" and sh5: "s5 \<le> 10"
    using added_bounds [of "3602879701896397 / 4503599627370496" "s4" "8" "3602879701896397 / 18014398509481984" p5 "2"] pl5 ph5 sl4 sh4
    by (simp_all add: s5_def d64_literals d64_chain)
  have "py_sum Until_3_11 [Fin p1, Fin p2, Fin p3, Fin p4, Fin p5] = Fin s5"
    by (simp only: py_sum_def list.case cpython.case foldl.simps a1 a2 a3 a4 a5)
  then show ?thesis using sl5 sh5 by blast
qed

text \<open>
  The compensated summation of the five weighted scores is their exact sum, rounded once;
  the exact sum lies between the sum of the weights and 10.
\<close>

lemma compensated_sum_bounds:
  assumes r: "d64 p1 = p1" "d64 p2 = p2" "d64 p3 = p3" "d64 p4 = p4" "d64 p5 = p5"
    and pl1: "1 / 4 \<le> p1" and ph1: "p1 \<le> 5 / 2"
    and pl2: "3602879701896397 / 18014398509481984 \<le> p2" and ph2: "p2 \<le> 2"
    and pl3: "3602879701896397 / 18014398509481984 \<le> p3" and ph3: "p3 \<le> 2"
    and pl4: "5404319552844595 / 36028797018963968 \<le> p4" and ph4: "p4 \<le> 3 / 2"
    and pl5: "3602879701896397 / 18014398509481984 \<le> p5" and ph5: "p5 \<le> 2"
  shows "\<exists>s. py_sum From_3_12 [Fin p1, Fin p2, Fin p3, Fin p4, Fin p5] = Fin s \<and>
    1 \<le> s \<and> s \<le> 10"
proof -
  have "py_sum From_3_12 [Fin p1, Fin p2, Fin p3, Fin p4, Fin p5] =
      Fin (d64 (p1 + p2 + p3 + p4 + p5))"
    using r pl1 ph1 pl2 ph2 pl3 ph3 pl4 ph4 pl5 ph5 by (intro neumaier_sum5) simp_all
  moreover have "1 \<le> p1 + p2 + p3 + p4 + p5" using pl1 pl2 pl3 pl4 pl5 by simp
  then have "d64 1 \<le> d64 (p1 + p2 + p3 + p4 + p5)" by (rule d64_mono)
  then have "1 \<le> d64 (p1 + p2 + p3 + p4 + p5)" by (simp only: d64_literals)
  moreover have "p1 + p2 + p3 + p4 + p5 \<le> 10" using ph1 ph2 ph3 ph4 ph5 by simp
  then have "d64 (p1 + p2 + p3 + p4 + p5) \<le> d64 10" by (rule d64_mono)
  then have "d64 (p1 + p2 + p3 + p4 + p5) \<le> 10" by (simp only: d64_literals)
  ultimately show ?thesis by blast
qed

lemma weighted_sum_bounds:
  assumes "1 \<le> x1" and "x1 \<le> 10"
    and "1 \<le> x2" and "x2 \<le> 10"
    and "1 \<le> x3" and "x3 \<le> 10"
    and "1 \<le> x4" and "x4 \<le> 10"
    and "1 \<le> x5" and "x5 \<le> 10"
  shows "\<exists>s. py_sum v [fmul (Fin x1) (Fin (1 / 4)),
      fmul (Fin x2) (Fin (3602879701896397 / 18014398509481984)),
      fmul (Fin x3) (Fin (3602879701896397 / 18014398509481984)),
      fmul (Fin x4) (Fin (5404319552844595 / 36028797018963968)),
      fmul (Fin x5) (Fin (3602879701896397 / 18014398509481984))] = Fin s \<and>
    1 \<le> s \<and> s \<le> 10"
proof -
  define p1 where "p1 = d64 (x1 * (1 / 4))"
  define p2 where "p2 = d64 (x2 * (3602879701896397 / 18014398509481984))"
  define p3 where "p3 = d64 (x3 * (3602879701896397 / 18014398509481984))"
  define p4 where "p4 = d64 (x4 * (5404319552844595 / 36028797018963968))"
  define p5 where "p5 = d64 (x5 * (3602879701896397 / 18014398509481984))"
  have m1: "fmul (Fin x1) (Fin (1 / 4)) = Fin p1"
    and pl1: "1 / 4 \<le> p1" and ph1: "p1 \<le> 5 / 2"
    using weighted_bounds [of "1 / 4" x1] assms
    by (simp_all add: p1_def d64_literals d64_chain)
  have m2: "fmul (Fin x2) (Fin (3602879701896397 / 18014398509481984)) = Fin p2"
    and pl2: "3602879701896397 / 18014398509481984 \<le> p2" and ph2: "p2 \<le> 2"
    using weighted_bounds [of "3602879701896397 / 18014398509481984" x2] assms
    by (simp_all add: p2_def d64_literals d64_chain)
  have m3: "fmul (Fin x3) (Fin (3602879701896397 / 18014398509481984)) = Fin p3"
    and pl3: "3602879701896397 / 18014398509481984 \<le> p3" and ph3: "p3 \<le> 2"
    using weighted_bounds [of "3602879701896397 / 18014398509481984" x3] assms
    by (simp_all add: p3_def d64_literals d64_chain)
  have m4: "fmul (Fin x4) (Fin (5404319552844595 / 36028797018963968)) = Fin p4"
    and pl4: "5404319552844595 / 36028797018963968 \<le> p4" and ph4: "p4 \<le> 3 / 2"
    using weighted_bounds [of "5404319552844595 / 36028797018963968" x4] assms
    by (simp_all add: p4_def d64_literals d64_chain)
  have m5: "fmul (Fin x5) (Fin (3602879701896397 / 18014398509481984)) = Fin p5"
    and pl5: "3602879701896397 / 18014398509481984 \<le> p5" and ph5: "p5 \<le> 2"
    using weighted_bounds [of "3602879701896397 / 18014398509481984" x5] assms
    by (simp_all add: p5_def d64_literals d64_chain)
  have r: "d64 p1 = p1" "d64 p2 = p2" "d64 p3 = p3" "d64 p4 = p4" "d64 p5 = p5"
    by (simp_all only: p1_def p2_def p3_def p4_def p5_def d64_idem)
  have "\<exists>s. py_sum v [Fin p1, Fin p2, Fin p3, Fin p4, Fin p5] = Fin s \<and> 1 \<le> s \<and> s \<le> 10"
  proof (cases v)
    case Until_3_11
    show ?thesis
      unfolding Until_3_11
      using pl1 ph1 pl2 ph2 pl3 ph3 pl4 ph4 pl5 ph5 by (rule plain_sum_bounds)
  next
    case From_3_12
    show ?thesis
      unfolding From_3_12
      using r pl1 ph1 pl2 ph2 pl3 ph3 pl4 ph4 pl5 ph5 by (rule compensated_sum_bounds)
  qed
  then show ?thesis by (simp only: m1 m2 m3 m4 m5)
qed

lemma valid_record_categories:
  assumes "valid_record c"
  shows "list_all in_range (dataclass_fields (Political (political_stability c)))"
    and "list_all in_range (dataclass_fields (Security (security_environment c)))"
    and "list_all in_range (dataclass_fields (Economic (economic_stability c)))"
    and "list_all in_range (dataclass_fields (Social (social_indicators c)))"
    and "list_all in_range (dataclass_fields (Illicit (illicit_markets c)))"
  using assms unfolding valid_record_def indicators_def by (simp_all only: list_all_append)

lemma threat_score_valid:
  assumes "valid_record c"
  shows "\<exists>s. calculate_threat_score v c = Inr (Fin s) \<and> 1 \<le> s \<and> s \<le> 10"
proof -
  note vc = valid_record_categories [OF assms]
  obtain x1 where c1: "calculate_category_score (Some (Political (political_stability c))) = Inr (Fin x1)"
    and b1: "1 \<le> x1" "x1 \<le> 10" using category_score_in_range [OF vc(1)] by blast
  obtain x2 where c2: "calculate_category_score (Some (Security (security_environment c))) = Inr (Fin x2)"
    and b2: "1 \<le> x2" "x2 \<le> 10" using category_score_in_range [OF vc(2)] by blast
  obtain x3 where c3: "calculate_category_score (Some (Economic (economic_stability c))) = Inr (Fin x3)"
    and b3: "1 \<le> x3" "x3 \<le> 10" using category_score_in_range [OF vc(3)] by blast
  obtain x4 where c4: "calculate_category_score (Some (Social (social_indicators c))) = Inr (Fin x4)"
    and b4: "1 \<le> x4" "x4 \<le> 10" using category_score_in_range [OF vc(4)] by blast
  obtain x5 where c5: "calculate_category_score (Some (Illicit (illicit_markets c))) = Inr (Fin x5)"
    and b5: "1 \<le> x5" "x5 \<le> 10" using category_score_in_range [OF vc(5)] by blast
  have "calculate_threat_score v c =
      Inr (py_sum v [fmul (Fin x1) (Fin (1 / 4)),
        fmul (Fin x2) (Fin (3602879701896397 / 18014398509481984)),
        fmul (Fin x3) (Fin (3602879701896397 / 18014398509481984)),
        fmul (Fin x4) (Fin (5404319552844595 / 36028797018963968)),
        fmul (Fin x5) (Fin (3602879701896397 / 18014398509481984))])"
    unfolding calculate_threat_score_def
    by (simp only: c1 c2 c3 c4 c5 weight_values bindE_Inr)
  then show ?thesis
    using weighted_sum_bounds [OF b1 b2 b3 b4 b5, of v] by auto
qed

lemma valid_uniform_record: "in_range v \<Longrightarrow> valid_record (uniform_record v)"
  by (simp add: valid_record_def indicators_def uniform_record_def)

lemma uniform_weighted_scores:
  "calculate_threat_score v (uniform_record 1) =
     Inr (py_sum v [Fin (1 / 4), Fin (3602879701896397 / 18014398509481984),
       Fin (3602879701896397 / 18014398509481984), Fin (5404319552844595 / 36028797018963968),
       Fin (3602879701896397 / 18014398509481984)])"
  "calculate_threat_score v (uniform_record 6) =
     Inr (py_sum v [Fin (3 / 2), Fin (1351079888211149 / 1125899906842624),
       Fin (1351079888211149 / 1125899906842624), Fin (2026619832316723 / 2251799813685248),
       Fin (1351079888211149 / 1125899906842624)])"
  "calculate_threat_score v (uniform_record 10) =
     Inr (py_sum v [Fin (5 / 2), Fin 2, Fin 2, Fin (3 / 2), Fin 2])"
  by (simp_all add: calculate_threat_score_def calculate_category_score_def int_truediv_def
      uniform_record_def weight_values bindE_Inr fl_bounded d64_literals d64_chain
      d64_chain_six)

lemma threat_score_uniform:
  "calculate_threat_score v (uniform_record 1) = Inr (Fin 1)"
  "calculate_threat_score v (uniform_record 10) = Inr (Fin 10)"
proof -
  show "calculate_threat_score v (uniform_record 1) = Inr (Fin 1)"
  proof (cases v)
    case Until_3_11
    then show ?thesis
      by (simp add: uniform_weighted_scores py_sum_def fl_bounded d64_literals d64_chain
          d64_zero)
  next
    case From_3_12
    show ?thesis
      unfolding From_3_12 uniform_weighted_scores
      by (subst neumaier_sum5) (simp_all add: d64_literals d64_chain)
  qed
  show "calculate_threat_score v (uniform_record 10) = Inr (Fin 10)"
  proof (cases v)
    case Until_3_11
    then show ?thesis
      by (simp add: uniform_weighted_scores py_sum_def fl_bounded d64_literals d64_chain
          d64_zero)
  next
    case From_3_12
    show ?thesis
      unfolding From_3_12 uniform_weighted_scores
      by (subst neumaier_sum5) (simp_all add: d64_literals d64_chain)
  qed
qed

text \<open>
  The two summations differ on valid records. With all indicators 6, the plain summation
  gives the double above 6, which is in no band, and the compensated summation gives 6.
\<close>

lemma threat_score_all_six:
  "calculate_threat_score Until_3_11 (uniform_record 6) =
     Inr (Fin (6755399441055745 / 1125899906842624))"
  "calculate_threat_score From_3_12 (uniform_record 6) = Inr (Fin 6)"
proof -
  show "calculate_threat_score Until_3_11 (uniform_record 6) =
     Inr (Fin (6755399441055745 / 1125899906842624))"
    by (simp add: uniform_weighted_scores py_sum_def fl_bounded d64_literals d64_chain
        d64_chain_six d64_zero)
  show "calculate_threat_score From_3_12 (uniform_record 6) = Inr (Fin 6)"
    unfolding uniform_weighted_scores
    by (subst neumaier_sum5) (simp_all add: d64_literals d64_chain d64_chain_six)
qed

text \<open>
  C2. For every valid record the threat score is a finite float between 1.0 and 10.0,
  both bounds included, whichever of the two summations the interpreter uses; the record
  of all ones reaches 1.0 and the record of all tens reaches 10.0.
\<close>

theorem threat_score_in_range:
  assumes "valid_record c"
  shows "\<exists>s. calculate_threat_score v c = Inr (Fin s) \<and> 1 \<le> s \<and> s \<le> 10 \<and>
    fle (float_lit 1) (Fin s) \<and> fle (Fin s) (float_lit 10)"
  using threat_score_valid [OF assms, of v] by (auto simp: float_lit_values)

theorem threat_score_in_range_witness:
  "valid_record (uniform_record 1) \<and> valid_record (uniform_record 10) \<and>
   (\<forall>v. calculate_threat_score v (uniform_record 1) = Inr (Fin 1) \<and>
        calculate_threat_score v (uniform_record 10) = Inr (Fin 10))"
  using threat_score_in_range [of "uniform_record 1"] threat_score_in_range [of "uniform_record 10"]
  by (simp add: valid_uniform_record in_range_def threat_score_uniform)

lemma int64_record_categories:
  assumes "list_all fits_int64 (indicators c)"
  shows "list_all fits_int64 (dataclass_fields (Political (political_stability c)))"
    and "list_all fits_int64 (dataclass_fields (Security (security_environment c)))"
    and "list_all fits_int64 (dataclass_fields (Economic (economic_stability c)))"
    and "list_all fits_int64 (dataclass_fields (Social (social_indicators c)))"
    and "list_all fits_int64 (dataclass_fields (Illicit (illicit_markets c)))"
  using assms unfolding indicators_def by (simp_all only: list_all_append)

lemma threat_score_returns:
  assumes "list_all fits_int64 (indicators c)"
  shows "\<exists>s. calculate_threat_score v c = Inr s"
  unfolding calculate_threat_score_def
  by (simp only: int64_record_categories [OF assms, THEN category_score_int64] weight_values
      bindE_Inr) blast

lemma threat_lookups:
  assumes "get_threat_level v c = Inr level"
  shows "level \<in> set threat_levels"
    and "\<exists>d. map_of descriptions level = Some d \<and> get_threat_description v c = Inr d"
    and "\<exists>k. map_of colors_map level = Some k \<and> get_threat_color v c = Inr k"
proof -
  obtain s where s: "calculate_threat_score v c = Inr s" and l: "level = threat_level_of_score s"
    using assms by (auto simp: get_threat_level_def bindE_def split: sum.splits)
  show lv: "level \<in> set threat_levels" using l by (simp add: threat_level_in_levels)
  obtain d where d: "map_of descriptions level = Some d" using descriptions_hit [OF lv] by blast
  then show "\<exists>d. map_of descriptions level = Some d \<and> get_threat_description v c = Inr d"
    using assms by (simp add: get_threat_description_def bindE_Inr dict_get_def)
  obtain k where k: "map_of colors_map level = Some k" using colors_hit [OF lv] by blast
  then show "\<exists>k. map_of colors_map level = Some k \<and> get_threat_color v c = Inr k"
    using assms by (simp add: get_threat_color_def bindE_Inr dict_get_def)
qed

lemma threat_level_returns:
  assumes "list_all fits_int64 (indicators c)"
  shows "\<exists>level. get_threat_level v c = Inr level"
proof -
  obtain s where "calculate_threat_score v c = Inr s"
    using threat_score_returns [OF assms] by blast
  then show ?thesis by (simp add: get_threat_level_def bindE_Inr)
qed

text \<open>
  C10. Whenever \<open>get_threat_level\<close> returns, it returns one of the six level names, the
  description and the colour are the entries of their tables for that level, and the
  defaults of the two lookups are not used. It returns for every record whose indicators
  fit a 64-bit integer. This holds with either summation.
\<close>

theorem threat_level_lookups_hit:
  "(\<forall>level. get_threat_level v c = Inr level \<longrightarrow>
      level \<in> set threat_levels \<and>
      (\<exists>d. map_of descriptions level = Some d \<and> get_threat_description v c = Inr d) \<and>
      (\<exists>k. map_of colors_map level = Some k \<and> get_threat_color v c = Inr k)) \<and>
   (list_all fits_int64 (indicators c) \<longrightarrow> (\<exists>level. get_threat_level v c = Inr level))"
proof (intro conjI allI impI)
  fix level assume a: "get_threat_level v c = Inr level"
  show "level \<in> set threat_levels"
    and "\<exists>d. map_of descriptions level = Some d \<and> get_threat_description v c = Inr d"
    and "\<exists>k. map_of colors_map level = Some k \<and> get_threat_color v c = Inr k"
    using threat_lookups [OF a] by blast+
next
  assume "list_all fits_int64 (indicators c)"
  then show "\<exists>level. get_threat_level v c = Inr level" by (rule threat_level_returns)
qed

theorem threat_level_lookups_hit_witness:
  "list_all fits_int64 (indicators (uniform_record 10)) \<and>
   ''EXTREME'' \<in> set threat_levels \<and>
   (\<forall>v. get_threat_level v (uniform_record 10) = Inr ''EXTREME'' \<and>
      get_threat_description v (uniform_record 10) =
        Inr ''Critical threats with high probability of crisis'' \<and>
      get_threat_color v (uniform_record 10) = Inr ''#dc3545'')"
  using threat_level_lookups_hit [of _ "uniform_record 10"]
  by (simp add: get_threat_level_def get_threat_description_def get_threat_color_def dict_get_def
      bindE_Inr threat_score_uniform threat_level_Fin d64_literals threat_levels_def
      descriptions_def colors_map_def list_all_in_range_int64 [OF valid_uniform_record [unfolded valid_record_def]]
      in_range_def)

section \<open>Database handler: saving, loading, deleting\<close>

lemma load_rows_Nil: "load_rows [] = Map.empty"
  by (simp add: load_rows_def)

lemma load_rows_snoc:
  "load_rows (rs @ [r]) = (load_rows rs)(name_col r \<mapsto> country_of_row r)"
  by (simp add: load_rows_def)

lemma load_rows_filter_other:
  "n \<noteq> k \<Longrightarrow> load_rows (filter (\<lambda>r. name_col r \<noteq> k) rs) n = load_rows rs n"
  by (induction rs rule: rev_induct) (simp_all add: load_rows_Nil load_rows_snoc)

lemma load_rows_absent:
  "n \<notin> name_col ` set rs \<Longrightarrow> load_rows rs n = None"
  by (induction rs rule: rev_induct) (auto simp add: load_rows_Nil load_rows_snoc)

lemma or_empty_Some: "or_empty (Some s) = s"
  by (simp add: or_empty_def)

lemma or_empty_None: "or_empty None = []"
  by (simp add: or_empty_def)

lemma save_country_rows:
  "list_all fits_int64 (indicators country) \<Longrightarrow>
   save_country now d country =
     Inr \<lparr>rows = filter (\<lambda>r. name_col r \<noteq> name country) (rows d) @
                 [row_of_country now (seq d + 1) country],
          seq = seq d + 1\<rparr>"
  by (simp add: save_country_def row_of_country_def)

lemma save_country_overflow:
  "\<not> list_all fits_int64 (indicators country) \<Longrightarrow>
   save_country now d country =
     Inl (OverflowError ''Python int too large to convert to SQLite INTEGER'')"
  by (simp add: save_country_def)

lemma country_of_row_of_country: "country_of_row (row_of_country now i country) = country"
  by (simp add: country_of_row_def row_of_country_def or_empty_Some)

lemma row_of_country_sel:
  "name_col (row_of_country now i country) = name country"
  "created_at (row_of_country now i country) = now"
  "updated_at (row_of_country now i country) = now"
  "id_col (row_of_country now i country) = i"
  "key_risk_factors_col (row_of_country now i country) = Some (key_risk_factors country)"
  "trend_analysis_col (row_of_country now i country) = Some (trend_analysis country)"
  "recommendations_col (row_of_country now i country) = Some (recommendations country)"
  by (simp_all add: row_of_country_def)

lemma valid_record_fits_int64: "valid_record c \<Longrightarrow> list_all fits_int64 (indicators c)"
  by (rule list_all_in_range_int64) (simp add: valid_record_def)


lemma name_uniform_record: "name (uniform_record v) = ''Brazil-2''"
  by (simp add: uniform_record_def)

lemma rows_seq_init_database: "rows init_database = []" "seq init_database = 0"
  by (simp_all add: init_database_def)

lemma save_example: "save_country 100 init_database (uniform_record 5) = Inr example_database"
  by (simp add: save_country_rows valid_record_fits_int64 valid_uniform_record in_range_def
      rows_seq_init_database example_database_def)

text \<open>
  C4. Saving a valid record succeeds, and loading all records afterwards gives, under the
  name of the record, a record equal to it in every field: the name, the 22 indicators
  and the three notes. Every stored row of that name holds the three notes as text, an
  empty note as the empty text and not as a null, and a null or an empty text is read back
  as the empty string.
\<close>

theorem save_load_round_trip:
  assumes "valid_record c"
  shows "\<exists>d'. save_country now d c = Inr d' \<and>
           load_all_countries d' (name c) = Some c \<and>
           (\<forall>r \<in> set (rows d'). name_col r = name c \<longrightarrow>
              key_risk_factors_col r = Some (key_risk_factors c) \<and>
              trend_analysis_col r = Some (trend_analysis c) \<and>
              recommendations_col r = Some (recommendations c)) \<and>
           or_empty None = [] \<and> or_empty (Some []) = []"
proof -
  let ?r = "row_of_country now (seq d + 1) c"
  let ?d = "\<lparr>rows = filter (\<lambda>r. name_col r \<noteq> name c) (rows d) @ [?r], seq = seq d + 1\<rparr>"
  have "save_country now d c = Inr ?d"
    using assms by (simp add: save_country_rows valid_record_fits_int64)
  moreover have "load_all_countries ?d (name c) = Some c"
    by (simp add: load_all_countries_def load_rows_snoc row_of_country_sel
        country_of_row_of_country)
  moreover have "\<forall>r \<in> set (rows ?d). name_col r = name c \<longrightarrow>
              key_risk_factors_col r = Some (key_risk_factors c) \<and>
              trend_analysis_col r = Some (trend_analysis c) \<and>
              recommendations_col r = Some (recommendations c)"
    by (auto simp add: row_of_country_sel)
  ultimately show ?thesis
    by (intro exI [of _ ?d]) (simp add: or_empty_Some or_empty_None)
qed

theorem save_load_round_trip_witness:
  "valid_record (uniform_record 5) \<and>
   (\<exists>d'. save_country 100 init_database (uniform_record 5) = Inr d' \<and>
      load_all_countries d' ''Brazil-2'' = Some (uniform_record 5) \<and>
      trend_analysis (the (load_all_countries d' ''Brazil-2'')) = [])"
proof -
  have v: "valid_record (uniform_record 5)"
    by (simp add: valid_uniform_record in_range_def)
  from save_load_round_trip [OF v, of 100 init_database]
  obtain d' where "save_country 100 init_database (uniform_record 5) = Inr d'"
    and "load_all_countries d' (name (uniform_record 5)) = Some (uniform_record 5)"
    by blast
  then have "save_country 100 init_database (uniform_record 5) = Inr d' \<and>
      load_all_countries d' ''Brazil-2'' = Some (uniform_record 5) \<and>
      trend_analysis (the (load_all_countries d' ''Brazil-2'')) = []"
    by (simp add: name_uniform_record) (simp add: uniform_record_def)
  with v show ?thesis by blast
qed

text \<open>
  C5. Saving a valid record \<open>a\<close> and then a valid record \<open>a'\<close> of the same name succeeds
  twice and leaves exactly one row of that name, which holds the values of \<open>a'\<close>: loading
  gives \<open>a'\<close> under the name, nothing of \<open>a\<close> is merged in, and the records of all other
  names are the ones that were loaded before the two saves.
\<close>

theorem upsert_overwrites:
  assumes "valid_record a" and "valid_record a'" and "name a' = name a"
  shows "\<exists>d1 d2. save_country t1 d a = Inr d1 \<and> save_country t2 d1 a' = Inr d2 \<and>
           load_all_countries d2 (name a) = Some a' \<and>
           map country_of_row (filter (\<lambda>r. name_col r = name a) (rows d2)) = [a'] \<and>
           (\<forall>n. n \<noteq> name a \<longrightarrow> load_all_countries d2 n = load_all_countries d n)"
proof -
  let ?keep = "filter (\<lambda>r. name_col r \<noteq> name a) (rows d)"
  let ?d1 = "\<lparr>rows = ?keep @ [row_of_country t1 (seq d + 1) a], seq = seq d + 1\<rparr>"
  let ?d2 = "\<lparr>rows = ?keep @ [row_of_country t2 (seq d + 1 + 1) a'], seq = seq d + 1 + 1\<rparr>"
  have s1: "save_country t1 d a = Inr ?d1"
    using assms(1) by (simp add: save_country_rows valid_record_fits_int64)
  have s2: "save_country t2 ?d1 a' = Inr ?d2"
    using assms(2,3) by (simp add: save_country_rows valid_record_fits_int64 row_of_country_sel)
  have l: "load_all_countries ?d2 (name a) = Some a'"
    using assms(3)
    by (simp add: load_all_countries_def load_rows_snoc row_of_country_sel
        country_of_row_of_country)
  have one: "map country_of_row (filter (\<lambda>r. name_col r = name a) (rows ?d2)) = [a']"
    using assms(3) by (simp add: row_of_country_sel country_of_row_of_country)
  have others: "\<forall>n. n \<noteq> name a \<longrightarrow> load_all_countries ?d2 n = load_all_countries d n"
    using assms(3)
    by (simp add: load_all_countries_def load_rows_snoc row_of_country_sel
        load_rows_filter_other)
  show ?thesis
    by (rule exI [of _ ?d1], rule exI [of _ ?d2]) (intro conjI s1 s2 l one others)
qed

theorem upsert_overwrites_witness:
  "valid_record (uniform_record 3) \<and> valid_record (uniform_record 8) \<and>
   uniform_record 8 \<noteq> uniform_record 3 \<and>
   (\<exists>d1 d2. save_country 100 init_database (uniform_record 3) = Inr d1 \<and>
      save_country 200 d1 (uniform_record 8) = Inr d2 \<and>
      load_all_countries d2 ''Brazil-2'' = Some (uniform_record 8) \<and>
      map country_of_row (rows d2) = [uniform_record 8])"
proof -
  have v3: "valid_record (uniform_record 3)" and v8: "valid_record (uniform_record 8)"
    by (simp_all add: valid_uniform_record in_range_def)
  have ne: "uniform_record 8 \<noteq> uniform_record 3"
    by (simp add: uniform_record_def)
  from upsert_overwrites [OF v3 v8, of 100 init_database 200]
  obtain d1 d2 where s1: "save_country 100 init_database (uniform_record 3) = Inr d1"
    and s2: "save_country 200 d1 (uniform_record 8) = Inr d2"
    and l: "load_all_countries d2 ''Brazil-2'' = Some (uniform_record 8)"
    unfolding name_uniform_record by blast
  have "save_country 100 init_database (uniform_record 3) =
      Inr \<lparr>rows = [row_of_country 100 1 (uniform_record 3)], seq = 1\<rparr>"
    by (simp add: save_country_rows valid_record_fits_int64 v3 rows_seq_init_database)
  with s1 have d1: "d1 = \<lparr>rows = [row_of_country 100 1 (uniform_record 3)], seq = 1\<rparr>"
    by simp
  have "save_country 200 d1 (uniform_record 8) =
      Inr \<lparr>rows = [row_of_country 200 2 (uniform_record 8)], seq = 2\<rparr>"
    unfolding d1
    by (simp add: save_country_rows valid_record_fits_int64 v8 row_of_country_sel
        name_uniform_record)
  with s2 have d2: "d2 = \<lparr>rows = [row_of_country 200 2 (uniform_record 8)], seq = 2\<rparr>"
    by simp
  have "map country_of_row (rows d2) = [uniform_record 8]"
    unfolding d2 by (simp add: country_of_row_of_country)
  with s1 s2 l have "\<exists>d1 d2. save_country 100 init_database (uniform_record 3) = Inr d1 \<and>
      save_country 200 d1 (uniform_record 8) = Inr d2 \<and>
      load_all_countries d2 ''Brazil-2'' = Some (uniform_record 8) \<and>
      map country_of_row (rows d2) = [uniform_record 8]"
    by (intro exI [of _ d1] exI [of _ d2]) simp
  with v3 v8 ne show ?thesis by simp
qed

text \<open>
  C6. Deleting a name that has no row returns the database unchanged; deleting is total,
  so no error is raised; deleting the same name a second time changes nothing more, and
  after a deletion no row has the name.
\<close>

theorem delete_absent_noop_idempotent:
  "(n \<notin> name_col ` set (rows d) \<longrightarrow> delete_country d n = d) \<and>
   delete_country (delete_country d n) n = delete_country d n \<and>
   n \<notin> name_col ` set (rows (delete_country d n))"
proof -
  have "n \<notin> name_col ` set (rows d) \<Longrightarrow> filter (\<lambda>r. name_col r \<noteq> n) (rows d) = rows d"
    by (induction "rows d") (auto simp add: filter_id_conv)
  then show ?thesis by (auto simp add: delete_country_def)
qed

theorem delete_absent_noop_idempotent_witness:
  "''Atlantis'' \<notin> name_col ` set (rows example_database) \<and>
   delete_country example_database ''Atlantis'' = example_database \<and>
   load_all_countries (delete_country example_database ''Atlantis'') ''Brazil-2'' =
     Some (uniform_record 5) \<and>
   delete_country (delete_country example_database ''Brazil-2'') ''Brazil-2'' =
     delete_country example_database ''Brazil-2'' \<and>
   rows (delete_country example_database ''Brazil-2'') = []"
proof -
  have absent: "''Atlantis'' \<notin> name_col ` set (rows example_database)"
    by (simp add: example_database_def row_of_country_sel name_uniform_record)
  from delete_absent_noop_idempotent [of "''Atlantis''" example_database] absent
  have noop: "delete_country example_database ''Atlantis'' = example_database"
    by blast
  have "load_all_countries example_database ''Brazil-2'' = Some (uniform_record 5)"
    by (simp add: load_all_countries_def example_database_def load_rows_snoc [of "[]", simplified]
        row_of_country_sel name_uniform_record country_of_row_of_country)
  moreover have "rows (delete_country example_database ''Brazil-2'') = []"
    by (simp add: delete_country_def example_database_def row_of_country_sel
        name_uniform_record)
  moreover have "delete_country (delete_country example_database ''Brazil-2'') ''Brazil-2'' =
     delete_country example_database ''Brazil-2''"
    by (simp add: delete_country_def)
  ultimately show ?thesis using absent noop by simp
qed

text \<open>
  C9. A record is saved at time 100 and a record of the same name is saved again at time
  200. After the first save the row has \<open>created_at\<close> 100. After the second save the one
  row of that name has \<open>updated_at\<close> 200 and also \<open>created_at\<close> 200, and a fresh rowid: the
  statement replaces the row, and the replacement takes the default of \<open>created_at\<close>, so
  the time of the first insertion is lost.
\<close>

theorem upsert_resets_created_at:
  "\<exists>d1 d2. save_country 100 init_database (uniform_record 3) = Inr d1 \<and>
     save_country 200 d1 (uniform_record 8) = Inr d2 \<and>
     map name_col (rows d1) = [''Brazil-2''] \<and>
     map created_at (rows d1) = [100] \<and>
     map name_col (rows d2) = [''Brazil-2''] \<and>
     map updated_at (rows d2) = [200] \<and>
     map created_at (rows d2) = [200] \<and>
     map id_col (rows d1) = [1] \<and> map id_col (rows d2) = [2]"
proof -
  have v3: "valid_record (uniform_record 3)" and v8: "valid_record (uniform_record 8)"
    by (simp_all add: valid_uniform_record in_range_def)
  let ?d1 = "\<lparr>rows = [row_of_country 100 1 (uniform_record 3)], seq = 1\<rparr>"
  let ?d2 = "\<lparr>rows = [row_of_country 200 2 (uniform_record 8)], seq = 2\<rparr>"
  have "save_country 100 init_database (uniform_record 3) = Inr ?d1"
    by (simp add: save_country_rows valid_record_fits_int64 v3 rows_seq_init_database)
  moreover have "save_country 200 ?d1 (uniform_record 8) = Inr ?d2"
    by (simp add: save_country_rows valid_record_fits_int64 v8 row_of_country_sel
        name_uniform_record)
  ultimately show ?thesis
    by (intro exI [of _ ?d1] exI [of _ ?d2])
      (simp add: row_of_country_sel name_uniform_record)
qed

section \<open>The form handler: validation\<close>


















end
